theory Spec2Isabelle
  imports Complex_Main "HOL-Library.Sublist"
begin

section \<open>Overview\<close>

text \<open>
  A shallow embedding of the client core of the route planner: the signal-phase
  simulator of the traffic-light popup with its one-second tick driver, the job
  client that submits an analysis and polls for its result, the popups of the map,
  and the map view's layer synchronisation. Every function is translated from the
  TypeScript source and keeps its name. The definitions come first; the properties
  follow, one section for each component.
\<close>

section \<open>Signal-phase simulator (TrafficLightPopup.tsx)\<close>

text \<open>
  The popup component simulates a traffic light locally. Durations and the elapsed
  counter are JavaScript numbers holding integer seconds; they are modelled as
  \<^typ>\<open>int\<close>. JavaScript's \<^verbatim>\<open>%\<close> is the truncated remainder (the result has the
  sign of the dividend) and yields NaN when the divisor is zero; NaN is modelled as
  \<^const>\<open>None\<close>.
\<close>

datatype LightPhase = Green | Yellow | Red

definition js_rem :: "int \<Rightarrow> int \<Rightarrow> int option" where
  "js_rem a b = (if b = 0 then None else Some (sgn a * (\<bar>a\<bar> mod \<bar>b\<bar>)))"

text \<open>
  \<^verbatim>\<open>getPhaseAndRemaining(t)\<close>, with the durations of the enclosing effect made
  explicit parameters. With \<^verbatim>\<open>pos = NaN\<close> both comparisons are false, so the
  last branch is taken and \<^verbatim>\<open>totalCycle - pos\<close> is NaN again.
\<close>

definition getPhaseAndRemaining :: "int \<Rightarrow> int \<Rightarrow> int \<Rightarrow> int \<Rightarrow> LightPhase \<times> int option" where
  "getPhaseAndRemaining green_duration yellow_duration red_duration t =
     (let totalCycle = green_duration + yellow_duration + red_duration in
      case js_rem t totalCycle of
        None \<Rightarrow> (Red, None)
      | Some pos \<Rightarrow>
          if pos < green_duration then (Green, Some (green_duration - pos))
          else if pos < green_duration + yellow_duration
            then (Yellow, Some (green_duration + yellow_duration - pos))
          else (Red, Some (totalCycle - pos)))"

section \<open>Payload types (services/api.ts)\<close>

text \<open>
  The payload types of \<^verbatim>\<open>services/api.ts\<close>. Latitudes, longitudes and the other
  measurements are JavaScript numbers that the client only passes on; they are kept
  as \<^typ>\<open>real\<close>. Signal durations are integer seconds.
\<close>

record Geometry =
  geometry_type :: string
  coordinates :: "(real list) list"

record WeatherSample =
  lat :: real
  lon :: real
  timestamp :: string
  precip_mm :: real
  precip_prob :: real
  temperature_c :: "real option"
  wind_speed_kmh :: "real option"
  humidity_percent :: "real option"
  visibility_m :: "real option"
  fog_risk :: string
  rain_risk :: string
  source :: string
  description :: string

record TollPoint =
  lat :: real
  lon :: real
  name :: string
  operator :: string

record AccidentPoint =
  lat :: real
  lon :: real
  accident_type :: string
  severity :: string
  description :: string
  delay_minutes :: real

record CongestionSegment =
  coordinates :: "(real list) list"
  congestion_level :: string
  congestion_ratio :: real
  avg_speed_kmh :: real
  color :: string

record TrafficLightPoint =
  lat :: real
  lon :: real
  osm_id :: int
  name :: string
  green_duration :: int
  yellow_duration :: int
  red_duration :: int
  distance_m :: "real option"

section \<open>The tick driver (the effect of TrafficLightPopup.tsx)\<close>

text \<open>
  The component's effect depends on \<^verbatim>\<open>[signal, visible]\<close>. The state below is what
  the effect reads and writes: the two state variables \<^verbatim>\<open>phase\<close> and
  \<^verbatim>\<open>countdown\<close>, the reference \<^verbatim>\<open>intervalRef\<close>, and the intervals that the
  runtime has scheduled, each with the variables its callback closes over (the three
  durations and the mutable \<^verbatim>\<open>elapsed\<close>). Interval handles are always truthy.
  \<open>cleanup_registered\<close> records whether the last run of the effect returned its
  cleanup function, which the framework calls before the next run.
\<close>

record IntervalClosure =
  c_green :: int
  c_yellow :: int
  c_red :: int
  elapsed :: int

record PopupComponent =
  phase :: LightPhase
  countdown :: "int option"
  intervalRef :: "nat option"
  timers :: "(nat \<times> IntervalClosure) list"
  next_timer :: nat
  cleanup_registered :: bool

definition popup_initial :: PopupComponent where
  "popup_initial =
     \<lparr>phase = Green, countdown = Some 0, intervalRef = None, timers = [],
      next_timer = 1, cleanup_registered = False\<rparr>"

definition clearInterval :: "nat \<Rightarrow> PopupComponent \<Rightarrow> PopupComponent" where
  "clearInterval h s = s\<lparr>timers := filter (\<lambda>(h', c). h' \<noteq> h) (timers s)\<rparr>"

text \<open>\<^verbatim>\<open>if (intervalRef.current) clearInterval(intervalRef.current)\<close>\<close>

definition clear_current :: "PopupComponent \<Rightarrow> PopupComponent" where
  "clear_current s = (case intervalRef s of None \<Rightarrow> s | Some h \<Rightarrow> clearInterval h s)"

text \<open>
  One run of the effect, for the new values of \<^verbatim>\<open>signal\<close> and \<^verbatim>\<open>visible\<close>; \<open>rnd\<close> is the value that \<^verbatim>\<open>Math.random()\<close>
  returns in this run. The cleanup of the previous run comes first.
\<close>

definition popup_effect ::
  "TrafficLightPoint option \<Rightarrow> bool \<Rightarrow> real \<Rightarrow> PopupComponent \<Rightarrow> PopupComponent" where
  "popup_effect signal visible rnd s0 =
     (let s = (if cleanup_registered s0 then clear_current s0 else s0) in
      case signal of
        None \<Rightarrow> (clear_current s)\<lparr>cleanup_registered := False\<rparr>
      | Some sg \<Rightarrow>
          if \<not> visible then (clear_current s)\<lparr>cleanup_registered := False\<rparr>
          else
            let totalCycle = green_duration sg + yellow_duration sg + red_duration sg;
                startOffset = \<lfloor>rnd * of_int totalCycle\<rfloor>;
                init = getPhaseAndRemaining (green_duration sg) (yellow_duration sg)
                         (red_duration sg) startOffset;
                h = next_timer s
            in s\<lparr>phase := fst init, countdown := snd init, intervalRef := Some h,
                 timers := timers s @
                   [(h, \<lparr>c_green = green_duration sg, c_yellow = yellow_duration sg,
                         c_red = red_duration sg, elapsed = startOffset\<rparr>)],
                 next_timer := Suc h, cleanup_registered := True\<rparr>)"

text \<open>
  The runtime fires the interval with handle \<open>h\<close>: its callback runs only while the
  interval is scheduled; a cleared interval never fires.
\<close>

definition popup_tick :: "nat \<Rightarrow> PopupComponent \<Rightarrow> PopupComponent" where
  "popup_tick h s =
     (case map_of (timers s) h of
        None \<Rightarrow> s
      | Some c \<Rightarrow>
          let elapsed' = elapsed c + 1;
              r = getPhaseAndRemaining (c_green c) (c_yellow c) (c_red c) elapsed'
          in s\<lparr>phase := fst r, countdown := snd r,
               timers := map (\<lambda>(h', c'). if h' = h then (h', c'\<lparr>elapsed := elapsed'\<rparr>)
                                          else (h', c')) (timers s)\<rparr>)"

text \<open>Unmounting the component runs the cleanup of the last run, if there is one.\<close>

definition popup_unmount :: "PopupComponent \<Rightarrow> PopupComponent" where
  "popup_unmount s =
     (if cleanup_registered s then clear_current s else s)\<lparr>cleanup_registered := False\<rparr>"

datatype PopupEvent = Props "TrafficLightPoint option" bool real | Tick nat | Unmount

fun popup_step :: "PopupComponent \<Rightarrow> PopupEvent \<Rightarrow> PopupComponent" where
  "popup_step s (Props signal visible rnd) = popup_effect signal visible rnd s"
| "popup_step s (Tick h) = popup_tick h s"
| "popup_step s Unmount = popup_unmount s"

text \<open>
  The states the component reaches: at most one interval is scheduled, it is the one
  the reference holds, and a cleanup is registered for it.
\<close>

definition popup_inv :: "PopupComponent \<Rightarrow> bool" where
  "popup_inv s =
     (case timers s of
        [] \<Rightarrow> True
      | [(h, c)] \<Rightarrow> cleanup_registered s \<and> intervalRef s = Some h
      | _ \<Rightarrow> False)"

text \<open>A signal with the given durations, for concrete runs.\<close>

definition signal_with :: "int \<Rightarrow> int \<Rightarrow> int \<Rightarrow> TrafficLightPoint" where
  "signal_with g y r =
     \<lparr>TrafficLightPoint.lat = 0, lon = 0, osm_id = 1, name = ''Semaforo'',
      green_duration = g, yellow_duration = y, red_duration = r, distance_m = None\<rparr>"

section \<open>Job orchestration client (services/api.ts, App.tsx)\<close>

datatype Status = Pending | Processing | Completed | Failed

record RouteResult =
  route_id :: string
  status :: Status
  error :: "string option"
  route_geometry :: "Geometry option"
  samples :: "WeatherSample list option"
  toll_points :: "TollPoint list option"
  accident_points :: "AccidentPoint list option"
  congestion_segments :: "CongestionSegment list option"
  traffic_light_points :: "TrafficLightPoint list option"

text \<open>
  What an awaited call can throw: the timeout that \<^verbatim>\<open>pollRoute\<close> raises itself,
  or the rejection of the HTTP request with its message.
\<close>

datatype JsError = TimeoutError | RequestError string

text \<open>
  \<^verbatim>\<open>pollRoute(routeId, interval, maxAttempts)\<close>. The backend is a parameter:
  \<open>getRouteResult routeId k\<close> is the outcome of the \<open>k\<close>-th request issued (counted
  from 0), so a backend whose job changes state over time is a function of \<open>k\<close>. The
  loop awaits each request before issuing the next; the pause between attempts does
  not change the outcome and is left out. The result is paired with the number of
  requests issued.
\<close>

function pollRoute_loop ::
  "(string \<Rightarrow> nat \<Rightarrow> JsError + RouteResult) \<Rightarrow> string \<Rightarrow> int \<Rightarrow> int \<Rightarrow> nat
    \<Rightarrow> (JsError + RouteResult) \<times> nat" where
  "pollRoute_loop getRouteResult routeId maxAttempts i fetches =
     (if i < maxAttempts then
        (case getRouteResult routeId fetches of
           Inl err \<Rightarrow> (Inl err, Suc fetches)
         | Inr result \<Rightarrow>
             if status result = Completed \<or> status result = Failed
             then (Inr result, Suc fetches)
             else pollRoute_loop getRouteResult routeId maxAttempts (i + 1) (Suc fetches))
      else (Inl TimeoutError, fetches))"
  by pat_completeness auto
termination
  by (relation "measure (\<lambda>(g, rid, maxAttempts, i, n). nat (maxAttempts - i))") auto

definition pollRoute ::
  "(string \<Rightarrow> nat \<Rightarrow> JsError + RouteResult) \<Rightarrow> string \<Rightarrow> int
    \<Rightarrow> (JsError + RouteResult) \<times> nat" where
  "pollRoute getRouteResult routeId maxAttempts =
     pollRoute_loop getRouteResult routeId maxAttempts 0 0"

text \<open>
  The root component's state and \<^verbatim>\<open>handleAnalyze\<close>. The function is asynchronous:
  it runs up to its first \<^verbatim>\<open>await\<close> when the user starts an analysis
  (\<open>handleAnalyze_begin\<close>), and its continuation runs when the awaited
  \<^verbatim>\<open>createRoute\<close>/\<^verbatim>\<open>pollRoute\<close> chain settles with a result or a thrown error
  (\<open>handleAnalyze_settle\<close>). Execution is single-threaded, so a run of the component
  is a sequence of these two events. Messages are kept without their accents.
\<close>

record AppState =
  loading :: bool
  app_error :: "string option"
  app_result :: "RouteResult option"

definition app_initial :: AppState where
  "app_initial = \<lparr>loading = False, app_error = None, app_result = None\<rparr>"

definition error_message :: "JsError \<Rightarrow> string" where
  "error_message err =
     (case err of
        TimeoutError \<Rightarrow> ''Timeout: analise nao concluiu a tempo.''
      | RequestError msg \<Rightarrow>
          if msg = [] then ''Erro ao analisar rota. Verifique se o backend esta rodando.''
          else msg)"

definition handleAnalyze_begin :: "AppState \<Rightarrow> AppState" where
  "handleAnalyze_begin s = s\<lparr>loading := True, app_error := None, app_result := None\<rparr>"

definition handleAnalyze_settle :: "JsError + RouteResult \<Rightarrow> AppState \<Rightarrow> AppState" where
  "handleAnalyze_settle outcome s =
     (let s' =
        (case outcome of
           Inr routeResult \<Rightarrow>
             if status routeResult = Failed
             then s\<lparr>app_error :=
                      Some (case error routeResult of
                              None \<Rightarrow> ''Erro desconhecido na analise da rota.''
                            | Some e \<Rightarrow>
                                if e = [] then ''Erro desconhecido na analise da rota.'' else e)\<rparr>
             else s\<lparr>app_result := Some routeResult\<rparr>
         | Inl err \<Rightarrow> s\<lparr>app_error := Some (error_message err)\<rparr>)
      in s'\<lparr>loading := False\<rparr>)"

datatype AppEvent = Analyze | Settled "JsError + RouteResult"

fun app_step :: "AppState \<Rightarrow> AppEvent \<Rightarrow> AppState" where
  "app_step s Analyze = handleAnalyze_begin s"
| "app_step s (Settled outcome) = handleAnalyze_settle outcome s"

text \<open>
  A response that carries only the job's identifier and status, as the backend returns
  while the job is still running.
\<close>

definition bare_result :: "string \<Rightarrow> Status \<Rightarrow> RouteResult" where
  "bare_result rid st =
     \<lparr>route_id = rid, status = st, error = None, route_geometry = None, samples = None,
      toll_points = None, accident_points = None, congestion_segments = None,
      traffic_light_points = None\<rparr>"

section \<open>Map popups (the handlers registered in the map's init effect)\<close>

text \<open>
  Two references hold the popups the component created: \<^verbatim>\<open>clickPopupRef\<close> for the
  persistent popup (with a close button) and \<^verbatim>\<open>hoverPopupRef\<close> for the transient
  one. A popup is open while it is attached to the map; \<open>shown\<close> lists the attached
  popups. \<^verbatim>\<open>popup.remove()\<close> detaches a popup and is harmless on a detached one. The
  user closing a popup (its close button, or a click elsewhere on the map) makes the
  map library detach it; no handler of the component runs then.
\<close>

datatype FeatureLayer = SamplesCircles | TollCircles | AccidentCircles | SignalCircles

record Popup =
  popup_id :: nat
  closeButton :: bool
  on_layer :: FeatureLayer

record PopupUI =
  clickPopupRef :: "Popup option"
  hoverPopupRef :: "Popup option"
  shown :: "Popup list"
  next_popup :: nat

definition ui_initial :: PopupUI where
  "ui_initial = \<lparr>clickPopupRef = None, hoverPopupRef = None, shown = [], next_popup = 0\<rparr>"

definition popup_remove :: "Popup \<Rightarrow> PopupUI \<Rightarrow> PopupUI" where
  "popup_remove p s = s\<lparr>shown := filter (\<lambda>q. popup_id q \<noteq> popup_id p) (shown s)\<rparr>"

text \<open>\<^verbatim>\<open>ref.current?.remove()\<close>\<close>

definition remove_if_set :: "Popup option \<Rightarrow> PopupUI \<Rightarrow> PopupUI" where
  "remove_if_set r s = (case r of None \<Rightarrow> s | Some p \<Rightarrow> popup_remove p s)"

text \<open>\<^verbatim>\<open>new maplibregl.Popup({closeButton: ...}) ... .addTo(m)\<close>\<close>

definition new_popup :: "bool \<Rightarrow> FeatureLayer \<Rightarrow> PopupUI \<Rightarrow> Popup \<times> PopupUI" where
  "new_popup cb layer s =
     (let p = \<lparr>popup_id = next_popup s, closeButton = cb, on_layer = layer\<rparr>
      in (p, s\<lparr>shown := shown s @ [p], next_popup := Suc (next_popup s)\<rparr>))"

text \<open>
  \<^verbatim>\<open>m.on('click', 'samples-circles', ...)\<close>: the only click handler. The flag says
  whether the event carries a feature.
\<close>

definition on_click_samples :: "bool \<Rightarrow> PopupUI \<Rightarrow> PopupUI" where
  "on_click_samples has_feature s =
     (if \<not> has_feature then s
      else
        let s1 = remove_if_set (clickPopupRef s) s;
            s2 = remove_if_set (hoverPopupRef s1) s1;
            (p, s3) = new_popup True SamplesCircles s2
        in s3\<lparr>clickPopupRef := Some p\<rparr>)"

text \<open>\<^verbatim>\<open>m.on('mouseenter', 'samples-circles', ...)\<close>\<close>

definition on_mouseenter_samples :: "bool \<Rightarrow> PopupUI \<Rightarrow> PopupUI" where
  "on_mouseenter_samples has_feature s =
     (if \<not> has_feature then s
      else if clickPopupRef s \<noteq> None then s
      else
        let s1 = remove_if_set (hoverPopupRef s) s;
            (p, s2) = new_popup False SamplesCircles s1
        in s2\<lparr>hoverPopupRef := Some p\<rparr>)"

text \<open>
  \<^verbatim>\<open>m.on('mouseenter', layer, ...)\<close> for \<^verbatim>\<open>toll-circles\<close>,
  \<^verbatim>\<open>accident-circles\<close> and \<^verbatim>\<open>signal-circles\<close>: the three handlers differ only in
  the popup's content.
\<close>

definition on_mouseenter_points :: "FeatureLayer \<Rightarrow> bool \<Rightarrow> PopupUI \<Rightarrow> PopupUI" where
  "on_mouseenter_points layer has_feature s =
     (if \<not> has_feature then s
      else
        let s1 = remove_if_set (hoverPopupRef s) s;
            (p, s2) = new_popup False layer s1
        in s2\<lparr>hoverPopupRef := Some p\<rparr>)"

text \<open>\<^verbatim>\<open>m.on('mouseleave', layer, ...)\<close>, the same for the four layers.\<close>

definition on_mouseleave :: "PopupUI \<Rightarrow> PopupUI" where
  "on_mouseleave s = (remove_if_set (hoverPopupRef s) s)\<lparr>hoverPopupRef := None\<rparr>"

datatype UIEvent =
    Click FeatureLayer bool
  | MouseEnter FeatureLayer bool
  | MouseLeave FeatureLayer
  | UserCloses nat

fun ui_step :: "PopupUI \<Rightarrow> UIEvent \<Rightarrow> PopupUI" where
  "ui_step s (Click layer has_feature) =
     (if layer = SamplesCircles then on_click_samples has_feature s else s)"
| "ui_step s (MouseEnter layer has_feature) =
     (if layer = SamplesCircles then on_mouseenter_samples has_feature s
      else on_mouseenter_points layer has_feature s)"
| "ui_step s (MouseLeave layer) = on_mouseleave s"
| "ui_step s (UserCloses pid) = s\<lparr>shown := filter (\<lambda>q. popup_id q \<noteq> pid) (shown s)\<rparr>"

definition persistent_open :: "PopupUI \<Rightarrow> bool" where
  "persistent_open s = (filter closeButton (shown s) \<noteq> [])"

definition transient_open :: "PopupUI \<Rightarrow> bool" where
  "transient_open s = (filter (\<lambda>p. \<not> closeButton p) (shown s) \<noteq> [])"

section \<open>Map layer synchronisation (components/MapView.tsx)\<close>

subsection \<open>The map surface\<close>

text \<open>
  The component draws on a MapLibre GL map. The map library is not part of the
  repository; the surface is modelled by the behaviour of the six methods the
  component calls. A style holds an ordered list of layers, drawn bottom to top, and
  its sources by identifier. \<^verbatim>\<open>addLayer\<close> without a \<^verbatim>\<open>beforeId\<close> (the component
  never passes one) puts the layer on top. \<^verbatim>\<open>addSource\<close> throws when the identifier
  is taken and \<^verbatim>\<open>removeSource\<close> throws when it is unknown; the other refusals
  (adding a layer whose identifier is taken, removing an unknown layer, removing a
  source that a layer still uses) fire an error event and leave the style unchanged.
  Thrown errors are \<^const>\<open>Inl\<close> results; fired error events are logged in the
  surface. Of a layer, the identifier, the type and the source are kept; paint and
  layout are left out.
\<close>

datatype LayerType = Line | Circle | Symbol

record Layer =
  layer_id :: string
  layer_type :: LayerType
  layer_source :: string

datatype SourceData =
    RouteData Geometry
  | SegmentData CongestionSegment
  | SampleData "WeatherSample list" "(string \<times> string) list"
  | TollData "TollPoint list"
  | AccidentData "AccidentPoint list"
  | SignalData "TrafficLightPoint list"

datatype MapError =
    SourceExists string
  | NoSuchSource string
  | LayerExists string
  | NoSuchLayer string
  | SourceInUse string

record Surface =
  layers :: "Layer list"
  sources :: "(string \<times> SourceData) list"
  error_events :: "MapError list"

definition getLayer :: "string \<Rightarrow> Surface \<Rightarrow> bool" where
  "getLayer i s = (i \<in> set (map layer_id (layers s)))"

definition getSource :: "string \<Rightarrow> Surface \<Rightarrow> bool" where
  "getSource i s = (i \<in> set (map fst (sources s)))"

definition removeLayer :: "string \<Rightarrow> Surface \<Rightarrow> Surface" where
  "removeLayer i s =
     (if getLayer i s then s\<lparr>layers := filter (\<lambda>l. layer_id l \<noteq> i) (layers s)\<rparr>
      else s\<lparr>error_events := error_events s @ [NoSuchLayer i]\<rparr>)"

definition addLayer :: "Layer \<Rightarrow> Surface \<Rightarrow> Surface" where
  "addLayer l s =
     (if getLayer (layer_id l) s
      then s\<lparr>error_events := error_events s @ [LayerExists (layer_id l)]\<rparr>
      else s\<lparr>layers := layers s @ [l]\<rparr>)"

definition removeSource :: "string \<Rightarrow> Surface \<Rightarrow> MapError + Surface" where
  "removeSource i s =
     (if \<not> getSource i s then Inl (NoSuchSource i)
      else if i \<in> set (map layer_source (layers s))
        then Inr (s\<lparr>error_events := error_events s @ [SourceInUse i]\<rparr>)
      else Inr (s\<lparr>sources := filter (\<lambda>p. fst p \<noteq> i) (sources s)\<rparr>))"

definition addSource :: "string \<Rightarrow> SourceData \<Rightarrow> Surface \<Rightarrow> MapError + Surface" where
  "addSource i d s =
     (if getSource i s then Inl (SourceExists i)
      else Inr (s\<lparr>sources := sources s @ [(i, d)]\<rparr>))"

text \<open>Sequencing: a thrown error ends the handler.\<close>

definition and_then ::
  "MapError + Surface \<Rightarrow> (Surface \<Rightarrow> MapError + Surface) \<Rightarrow> MapError + Surface" where
  "and_then r f = (case r of Inl e \<Rightarrow> Inl e | Inr s \<Rightarrow> f s)"

subsection \<open>The component's references and channel functions\<close>

record Refs =
  routeGeomRef :: "Geometry option"
  samplesRef :: "WeatherSample list option"
  cityNamesRef :: "(string \<times> string) list"
  tollPointsRef :: "TollPoint list"
  accidentPointsRef :: "AccidentPoint list"
  congestionSegmentsRef :: "CongestionSegment list"
  trafficLightPointsRef :: "TrafficLightPoint list"

text \<open>\<^verbatim>\<open>if (m.getLayer(id)) m.removeLayer(id)\<close>\<close>

definition remove_layer_if_present :: "string \<Rightarrow> Surface \<Rightarrow> Surface" where
  "remove_layer_if_present i s = (if getLayer i s then removeLayer i s else s)"

text \<open>\<^verbatim>\<open>if (m.getSource(id)) m.removeSource(id)\<close>\<close>

definition remove_source_if_present :: "string \<Rightarrow> Surface \<Rightarrow> MapError + Surface" where
  "remove_source_if_present i s = (if getSource i s then removeSource i s else Inr s)"

definition addRouteLayers :: "Refs \<Rightarrow> Surface \<Rightarrow> MapError + Surface" where
  "addRouteLayers refs m =
     (case routeGeomRef refs of
        None \<Rightarrow> Inr m
      | Some geom \<Rightarrow>
          and_then
            (remove_source_if_present ''route''
              (remove_layer_if_present ''route-outline''
                (remove_layer_if_present ''route-line'' m)))
            (\<lambda>m1.
               let hasCongestion = (length (congestionSegmentsRef refs) > 0) in
               and_then (addSource ''route'' (RouteData geom) m1)
                 (\<lambda>m2.
                    let m3 = addLayer \<lparr>layer_id = ''route-outline'', layer_type = Line,
                                        layer_source = ''route''\<rparr> m2
                    in if \<not> hasCongestion
                       then Inr (addLayer \<lparr>layer_id = ''route-line'', layer_type = Line,
                                           layer_source = ''route''\<rparr> m3)
                       else Inr m3)))"

definition addTollLayers :: "Refs \<Rightarrow> Surface \<Rightarrow> MapError + Surface" where
  "addTollLayers refs m =
     (let tolls = tollPointsRef refs in
      and_then
        (remove_source_if_present ''tolls''
          (remove_layer_if_present ''toll-circles''
            (remove_layer_if_present ''toll-labels'' m)))
        (\<lambda>m1.
           if length tolls = 0 then Inr m1
           else
             and_then (addSource ''tolls'' (TollData tolls) m1)
               (\<lambda>m2. Inr
                  (addLayer \<lparr>layer_id = ''toll-labels'', layer_type = Symbol,
                             layer_source = ''tolls''\<rparr>
                    (addLayer \<lparr>layer_id = ''toll-circles'', layer_type = Circle,
                               layer_source = ''tolls''\<rparr> m2)))))"

definition addAccidentLayers :: "Refs \<Rightarrow> Surface \<Rightarrow> MapError + Surface" where
  "addAccidentLayers refs m =
     (let accidents = accidentPointsRef refs in
      and_then
        (remove_source_if_present ''accidents''
          (remove_layer_if_present ''accident-circles''
            (remove_layer_if_present ''accident-labels'' m)))
        (\<lambda>m1.
           if length accidents = 0 then Inr m1
           else
             and_then (addSource ''accidents'' (AccidentData accidents) m1)
               (\<lambda>m2. Inr
                  (addLayer \<lparr>layer_id = ''accident-labels'', layer_type = Symbol,
                             layer_source = ''accidents''\<rparr>
                    (addLayer \<lparr>layer_id = ''accident-circles'', layer_type = Circle,
                               layer_source = ''accidents''\<rparr> m2)))))"

text \<open>
  The identifiers of the congestion channel: \<^verbatim>\<open>`congestion-seg-${idx}`\<close> and its
  two layers. A template literal renders the index in decimal.
\<close>

definition digit_char :: "nat \<Rightarrow> char" where
  "digit_char d = char_of (48 + d)"

fun show_nat :: "nat \<Rightarrow> string" where
  "show_nat n =
     (if n < 10 then [digit_char n] else show_nat (n div 10) @ [digit_char (n mod 10)])"

declare show_nat.simps [simp del]

definition sourceId :: "nat \<Rightarrow> string" where
  "sourceId idx = ''congestion-seg-'' @ show_nat idx"

definition lineId :: "nat \<Rightarrow> string" where
  "lineId idx = ''congestion-seg-line-'' @ show_nat idx"

definition outlineId :: "nat \<Rightarrow> string" where
  "outlineId idx = ''congestion-seg-outline-'' @ show_nat idx"

text \<open>\<^verbatim>\<open>id.startsWith('congestion-seg-')\<close>\<close>

definition is_congestion_id :: "string \<Rightarrow> bool" where
  "is_congestion_id i = prefix ''congestion-seg-'' i"

text \<open>
  \<^verbatim>\<open>existingLayers.forEach(...)\<close> over the snapshot of the style's layers, and
  \<^verbatim>\<open>existingSources.forEach(...)\<close> over the snapshot of its source identifiers.
\<close>

fun remove_congestion_layers :: "Layer list \<Rightarrow> Surface \<Rightarrow> Surface" where
  "remove_congestion_layers [] m = m"
| "remove_congestion_layers (l # ls) m =
     remove_congestion_layers ls
       (if is_congestion_id (layer_id l) then removeLayer (layer_id l) m else m)"

fun remove_congestion_sources :: "string list \<Rightarrow> Surface \<Rightarrow> MapError + Surface" where
  "remove_congestion_sources [] m = Inr m"
| "remove_congestion_sources (k # ks) m =
     (if is_congestion_id k
      then and_then (removeSource k m) (remove_congestion_sources ks)
      else remove_congestion_sources ks m)"

text \<open>\<^verbatim>\<open>segments.forEach((seg, idx) => ...)\<close>, from index \<open>idx\<close> on.\<close>

fun add_segments :: "nat \<Rightarrow> CongestionSegment list \<Rightarrow> Surface \<Rightarrow> MapError + Surface" where
  "add_segments idx [] m = Inr m"
| "add_segments idx (seg # segs) m =
     and_then (addSource (sourceId idx) (SegmentData seg) m)
       (\<lambda>m1. add_segments (Suc idx) segs
          (addLayer \<lparr>layer_id = lineId idx, layer_type = Line,
                     layer_source = sourceId idx\<rparr>
            (addLayer \<lparr>layer_id = outlineId idx, layer_type = Line,
                       layer_source = sourceId idx\<rparr> m1)))"

definition addCongestionLayers :: "Refs \<Rightarrow> Surface \<Rightarrow> MapError + Surface" where
  "addCongestionLayers refs m =
     (let segments = congestionSegmentsRef refs;
          existingLayers = layers m;
          m1 = remove_congestion_layers existingLayers m;
          existingSources = map fst (sources m1)
      in and_then (remove_congestion_sources existingSources m1)
           (\<lambda>m2. if length segments = 0 then Inr m2 else add_segments 0 segments m2))"

definition addTrafficLightLayers :: "Refs \<Rightarrow> Surface \<Rightarrow> MapError + Surface" where
  "addTrafficLightLayers refs m =
     (let signals = trafficLightPointsRef refs in
      and_then
        (remove_source_if_present ''signals''
          (remove_layer_if_present ''signal-circles''
            (remove_layer_if_present ''signal-labels'' m)))
        (\<lambda>m1.
           if length signals = 0 then Inr m1
           else
             and_then (addSource ''signals'' (SignalData signals) m1)
               (\<lambda>m2. Inr
                  (addLayer \<lparr>layer_id = ''signal-labels'', layer_type = Symbol,
                             layer_source = ''signals''\<rparr>
                    (addLayer \<lparr>layer_id = ''signal-circles'', layer_type = Circle,
                               layer_source = ''signals''\<rparr> m2)))))"

definition addSampleLayers :: "Refs \<Rightarrow> Surface \<Rightarrow> MapError + Surface" where
  "addSampleLayers refs m =
     (let s = samplesRef refs; names = cityNamesRef refs in
      and_then
        (remove_source_if_present ''samples''
          (remove_layer_if_present ''samples-circles-stroke''
            (remove_layer_if_present ''samples-circles''
              (remove_layer_if_present ''samples-labels'' m))))
        (\<lambda>m1.
           case s of
             None \<Rightarrow> Inr m1
           | Some smp \<Rightarrow>
               if length smp = 0 then Inr m1
               else
                 and_then (addSource ''samples'' (SampleData smp names) m1)
                   (\<lambda>m2. Inr
                      (addLayer \<lparr>layer_id = ''samples-labels'', layer_type = Symbol,
                                 layer_source = ''samples''\<rparr>
                        (addLayer \<lparr>layer_id = ''samples-circles'', layer_type = Circle,
                                   layer_source = ''samples''\<rparr>
                          (addLayer \<lparr>layer_id = ''samples-circles-stroke'',
                                     layer_type = Circle, layer_source = ''samples''\<rparr>
                             m2))))))"

definition rebuildLayers :: "Refs \<Rightarrow> Surface \<Rightarrow> MapError + Surface" where
  "rebuildLayers refs m =
     and_then (and_then (and_then (and_then (and_then
       (addRouteLayers refs m)
       (addCongestionLayers refs))
       (addSampleLayers refs))
       (addTollLayers refs))
       (addAccidentLayers refs))
       (addTrafficLightLayers refs)"

subsection \<open>Props, reference synchronisation and the data effects\<close>

text \<open>
  The props of \<^verbatim>\<open>MapView\<close> that carry channel data, with the component's
  \<^verbatim>\<open>cityNames\<close> state. The first effects of the component copy them into the
  references; the route geometry is copied only when it is present.
\<close>

record Props =
  routeGeometry :: "Geometry option"
  samples :: "WeatherSample list option"
  cityNames :: "(string \<times> string) list"
  tollPoints :: "TollPoint list option"
  accidentPoints :: "AccidentPoint list option"
  congestionSegments :: "CongestionSegment list option"
  trafficLightPoints :: "TrafficLightPoint list option"

definition or_empty :: "'a list option \<Rightarrow> 'a list" where
  "or_empty v = (case v of None \<Rightarrow> [] | Some xs \<Rightarrow> xs)"

definition sync_refs :: "Props \<Rightarrow> Refs \<Rightarrow> Refs" where
  "sync_refs props refs =
     \<lparr>routeGeomRef =
        (case routeGeometry props of Some g \<Rightarrow> Some g | None \<Rightarrow> routeGeomRef refs),
      samplesRef = samples props,
      cityNamesRef = cityNames props,
      tollPointsRef = or_empty (tollPoints props),
      accidentPointsRef = or_empty (accidentPoints props),
      congestionSegmentsRef = or_empty (congestionSegments props),
      trafficLightPointsRef = or_empty (trafficLightPoints props)\<rparr>"

definition refs_initial :: Refs where
  "refs_initial =
     \<lparr>routeGeomRef = None, samplesRef = None, cityNamesRef = [], tollPointsRef = [],
      accidentPointsRef = [], congestionSegmentsRef = [], trafficLightPointsRef = []\<rparr>"

text \<open>
  The data effects, on a map whose style is loaded (\<^verbatim>\<open>isStyleLoaded()\<close> holds, so
  the body runs at once).
\<close>

definition effect_routeGeometry :: "Props \<Rightarrow> Refs \<Rightarrow> Surface \<Rightarrow> MapError + Surface" where
  "effect_routeGeometry props refs m =
     (case routeGeometry props of
        None \<Rightarrow> Inr m
      | Some g \<Rightarrow>
          and_then (and_then (and_then
            (addRouteLayers refs m)
            (addCongestionLayers refs))
            (addSampleLayers refs))
            (addTrafficLightLayers refs))"

definition effect_congestionSegments :: "Refs \<Rightarrow> Surface \<Rightarrow> MapError + Surface" where
  "effect_congestionSegments refs m =
     and_then (addRouteLayers refs m) (addCongestionLayers refs)"

text \<open>
  A new value of \<^verbatim>\<open>result\<close> in the root component changes every data prop: the
  references are synchronised, then the effects run in the order of their declaration
  (route geometry, samples, tolls, accidents, congestion segments, traffic lights).
  A prop that is absent before and after does not change, and its effect is skipped;
  running it, as here, only removes layers that are not there.
\<close>

definition on_result_changed :: "Props \<Rightarrow> Refs \<Rightarrow> Surface \<Rightarrow> MapError + Surface" where
  "on_result_changed props refs0 m =
     (let refs = sync_refs props refs0 in
      and_then (and_then (and_then (and_then (and_then
        (effect_routeGeometry props refs m)
        (addSampleLayers refs))
        (addTollLayers refs))
        (addAccidentLayers refs))
        (effect_congestionSegments refs))
        (addTrafficLightLayers refs))"

definition surface_initial :: Surface where
  "surface_initial = \<lparr>layers = [], sources = [], error_events = []\<rparr>"

subsection \<open>Properties of a surface\<close>

text \<open>
  A well-formed surface: layer and source identifiers are unique (the map library
  guarantees it), and a layer that draws a source reserved by a channel carries one
  of that channel's layer identifiers (the component alone uses the reserved names).
\<close>

definition owner_ok :: "Layer \<Rightarrow> bool" where
  "owner_ok l =
     ((layer_source l = ''route'' \<longrightarrow> layer_id l \<in> set [''route-line'', ''route-outline''])
    \<and> (layer_source l = ''tolls'' \<longrightarrow> layer_id l \<in> set [''toll-labels'', ''toll-circles''])
    \<and> (layer_source l = ''accidents''
          \<longrightarrow> layer_id l \<in> set [''accident-labels'', ''accident-circles''])
    \<and> (layer_source l = ''signals''
          \<longrightarrow> layer_id l \<in> set [''signal-labels'', ''signal-circles''])
    \<and> (layer_source l = ''samples''
          \<longrightarrow> layer_id l
                \<in> set [''samples-labels'', ''samples-circles'', ''samples-circles-stroke''])
    \<and> (is_congestion_id (layer_source l) \<longrightarrow> is_congestion_id (layer_id l)))"

definition surface_ok :: "Surface \<Rightarrow> bool" where
  "surface_ok s =
     (distinct (map layer_id (layers s)) \<and> distinct (map fst (sources s))
      \<and> list_all owner_ok (layers s))"

text \<open>The layers and sources of the congestion channel on a surface.\<close>

definition congestion_layers :: "Surface \<Rightarrow> Layer list" where
  "congestion_layers s = filter (\<lambda>l. is_congestion_id (layer_id l)) (layers s)"

definition congestion_sources :: "Surface \<Rightarrow> (string \<times> SourceData) list" where
  "congestion_sources s = filter (\<lambda>p. is_congestion_id (fst p)) (sources s)"

text \<open>
  What one generation of segments puts on the surface: for the segment at index
  \<open>idx\<close> its source, then its outline and its line layer.
\<close>

fun seg_sources :: "nat \<Rightarrow> CongestionSegment list \<Rightarrow> (string \<times> SourceData) list" where
  "seg_sources idx [] = []"
| "seg_sources idx (seg # segs) = (sourceId idx, SegmentData seg) # seg_sources (Suc idx) segs"

fun seg_layers :: "nat \<Rightarrow> CongestionSegment list \<Rightarrow> Layer list" where
  "seg_layers idx [] = []"
| "seg_layers idx (seg # segs) =
     \<lparr>layer_id = outlineId idx, layer_type = Line, layer_source = sourceId idx\<rparr>
     # \<lparr>layer_id = lineId idx, layer_type = Line, layer_source = sourceId idx\<rparr>
     # seg_layers (Suc idx) segs"

text \<open>
  The result of removing the layers and sources selected by \<open>dl\<close> and \<open>ds\<close> and
  adding \<open>nl\<close> and \<open>ns\<close> on top: the form every channel function takes on a
  well-formed surface.
\<close>

definition rebuilt ::
  "(string \<Rightarrow> bool) \<Rightarrow> (string \<Rightarrow> bool) \<Rightarrow> Layer list \<Rightarrow> (string \<times> SourceData) list
    \<Rightarrow> Surface \<Rightarrow> Surface" where
  "rebuilt dl ds nl ns s =
     s\<lparr>layers := filter (\<lambda>l. \<not> dl (layer_id l)) (layers s) @ nl,
       sources := filter (\<lambda>p. \<not> ds (fst p)) (sources s) @ ns\<rparr>"

text \<open>
  What each channel function draws for the data in the references: its layers, bottom
  to top, and its source. A channel without data draws nothing.
\<close>

definition route_layers :: "Refs \<Rightarrow> Layer list" where
  "route_layers refs =
     (case routeGeomRef refs of
        None \<Rightarrow> []
      | Some geom \<Rightarrow>
          \<lparr>layer_id = ''route-outline'', layer_type = Line, layer_source = ''route''\<rparr>
          # (if congestionSegmentsRef refs = []
             then [\<lparr>layer_id = ''route-line'', layer_type = Line, layer_source = ''route''\<rparr>]
             else []))"

definition route_source :: "Refs \<Rightarrow> (string \<times> SourceData) list" where
  "route_source refs =
     (case routeGeomRef refs of None \<Rightarrow> [] | Some geom \<Rightarrow> [(''route'', RouteData geom)])"

definition sample_layers :: "Refs \<Rightarrow> Layer list" where
  "sample_layers refs =
     (if or_empty (samplesRef refs) = [] then []
      else [\<lparr>layer_id = ''samples-circles-stroke'', layer_type = Circle,
              layer_source = ''samples''\<rparr>,
            \<lparr>layer_id = ''samples-circles'', layer_type = Circle, layer_source = ''samples''\<rparr>,
            \<lparr>layer_id = ''samples-labels'', layer_type = Symbol, layer_source = ''samples''\<rparr>])"

definition sample_source :: "Refs \<Rightarrow> (string \<times> SourceData) list" where
  "sample_source refs =
     (if or_empty (samplesRef refs) = [] then []
      else [(''samples'', SampleData (or_empty (samplesRef refs)) (cityNamesRef refs))])"

definition toll_layers :: "Refs \<Rightarrow> Layer list" where
  "toll_layers refs =
     (if tollPointsRef refs = [] then []
      else [\<lparr>layer_id = ''toll-circles'', layer_type = Circle, layer_source = ''tolls''\<rparr>,
            \<lparr>layer_id = ''toll-labels'', layer_type = Symbol, layer_source = ''tolls''\<rparr>])"

definition toll_source :: "Refs \<Rightarrow> (string \<times> SourceData) list" where
  "toll_source refs =
     (if tollPointsRef refs = [] then [] else [(''tolls'', TollData (tollPointsRef refs))])"

definition accident_layers :: "Refs \<Rightarrow> Layer list" where
  "accident_layers refs =
     (if accidentPointsRef refs = [] then []
      else [\<lparr>layer_id = ''accident-circles'', layer_type = Circle,
              layer_source = ''accidents''\<rparr>,
            \<lparr>layer_id = ''accident-labels'', layer_type = Symbol,
              layer_source = ''accidents''\<rparr>])"

definition accident_source :: "Refs \<Rightarrow> (string \<times> SourceData) list" where
  "accident_source refs =
     (if accidentPointsRef refs = [] then []
      else [(''accidents'', AccidentData (accidentPointsRef refs))])"

definition signal_layers :: "Refs \<Rightarrow> Layer list" where
  "signal_layers refs =
     (if trafficLightPointsRef refs = [] then []
      else [\<lparr>layer_id = ''signal-circles'', layer_type = Circle, layer_source = ''signals''\<rparr>,
            \<lparr>layer_id = ''signal-labels'', layer_type = Symbol, layer_source = ''signals''\<rparr>])"

definition signal_source :: "Refs \<Rightarrow> (string \<times> SourceData) list" where
  "signal_source refs =
     (if trafficLightPointsRef refs = [] then []
      else [(''signals'', SignalData (trafficLightPointsRef refs))])"

text \<open>
  A full rebuild removes every layer and source it manages (those of the route only
  when a geometry is known) and draws the channels in the order of its calls.
\<close>

definition managed_layer :: "Refs \<Rightarrow> string \<Rightarrow> bool" where
  "managed_layer refs i =
     ((routeGeomRef refs \<noteq> None \<and> i \<in> set [''route-line'', ''route-outline''])
      \<or> is_congestion_id i
      \<or> i \<in> set [''samples-labels'', ''samples-circles'', ''samples-circles-stroke'']
      \<or> i \<in> set [''toll-labels'', ''toll-circles'']
      \<or> i \<in> set [''accident-labels'', ''accident-circles'']
      \<or> i \<in> set [''signal-labels'', ''signal-circles''])"

definition managed_source :: "Refs \<Rightarrow> string \<Rightarrow> bool" where
  "managed_source refs i =
     ((routeGeomRef refs \<noteq> None \<and> i = ''route'') \<or> is_congestion_id i
      \<or> i = ''samples'' \<or> i = ''tolls'' \<or> i = ''accidents'' \<or> i = ''signals'')"

definition drawn_layers :: "Refs \<Rightarrow> Layer list" where
  "drawn_layers refs =
     route_layers refs @ seg_layers 0 (congestionSegmentsRef refs) @ sample_layers refs
     @ toll_layers refs @ accident_layers refs @ signal_layers refs"

definition drawn_sources :: "Refs \<Rightarrow> (string \<times> SourceData) list" where
  "drawn_sources refs =
     route_source refs @ seg_sources 0 (congestionSegmentsRef refs) @ sample_source refs
     @ toll_source refs @ accident_source refs @ signal_source refs"

subsection \<open>Draw order\<close>

text \<open>
  The four tiers of the specification's draw order, bottom to top: the base route
  underlay, the congestion-coloured segments, the point layers of the four point
  channels, the text labels. A layer the component does not manage has no tier.
\<close>

definition layer_tier :: "Layer \<Rightarrow> nat option" where
  "layer_tier l =
     (if layer_id l \<in> set [''route-outline'', ''route-line''] then Some 0
      else if is_congestion_id (layer_id l) then Some 1
      else if layer_id l \<in> set [''samples-circles-stroke'', ''samples-circles'',
                                 ''toll-circles'', ''accident-circles'', ''signal-circles'']
        then Some 2
      else if layer_id l \<in> set [''samples-labels'', ''toll-labels'', ''accident-labels'',
                                 ''signal-labels'']
        then Some 3
      else None)"

definition draw_order_ok :: "Surface \<Rightarrow> bool" where
  "draw_order_ok s = sorted (List.map_filter layer_tier (layers s))"

text \<open>
  The order with points and labels taken as one tier, and the order of one channel's
  own layers.
\<close>

definition coarse_tier :: "Layer \<Rightarrow> nat option" where
  "coarse_tier l = map_option (min 2) (layer_tier l)"

definition draw_order_coarse :: "Surface \<Rightarrow> bool" where
  "draw_order_coarse s = sorted (List.map_filter coarse_tier (layers s))"

definition labels_above_circles :: "string \<Rightarrow> Surface \<Rightarrow> bool" where
  "labels_above_circles src s =
     sorted (List.map_filter layer_tier (filter (\<lambda>l. layer_source l = src) (layers s)))"

subsection \<open>Channels without data\<close>

text \<open>
  A channel with fixed identifiers has nothing on the surface: no layer with one of
  its identifiers, no layer drawing its source, and no source of its name.
\<close>

definition channel_absent :: "string list \<Rightarrow> string \<Rightarrow> Surface \<Rightarrow> bool" where
  "channel_absent ids src s =
     (filter (\<lambda>l. layer_id l \<in> set ids \<or> layer_source l = src) (layers s) = []
      \<and> src \<notin> set (map fst (sources s)))"

subsection \<open>Handlers and the congestion channel\<close>

text \<open>
  A handler that, on a well-formed surface, returns a well-formed surface without
  firing an error event and leaves the congestion channel as it was; and a handler
  that leaves exactly one generation of segments.
\<close>

definition keeps_congestion :: "(Surface \<Rightarrow> MapError + Surface) \<Rightarrow> bool" where
  "keeps_congestion f =
     (\<forall>s. surface_ok s \<longrightarrow>
        (\<exists>s'. f s = Inr s' \<and> surface_ok s' \<and> error_events s' = error_events s
              \<and> congestion_layers s' = congestion_layers s
              \<and> congestion_sources s' = congestion_sources s))"

definition sets_congestion ::
  "CongestionSegment list \<Rightarrow> (Surface \<Rightarrow> MapError + Surface) \<Rightarrow> bool" where
  "sets_congestion segs f =
     (\<forall>s. surface_ok s \<longrightarrow>
        (\<exists>s'. f s = Inr s' \<and> surface_ok s' \<and> error_events s' = error_events s
              \<and> congestion_layers s' = seg_layers 0 segs
              \<and> congestion_sources s' = seg_sources 0 segs))"

subsection \<open>Data for concrete runs\<close>

definition demo_geometry :: Geometry where
  "demo_geometry = \<lparr>geometry_type = ''LineString'', coordinates = [ [0, 0], [1, 1] ]\<rparr>"

definition demo_segment :: "string \<Rightarrow> CongestionSegment" where
  "demo_segment level =
     \<lparr>CongestionSegment.coordinates = [ [0, 0], [1, 1] ], congestion_level = level,
      congestion_ratio = 1, avg_speed_kmh = 60, color = ''#16a34a''\<rparr>"

definition demo_sample :: WeatherSample where
  "demo_sample =
     \<lparr>WeatherSample.lat = 0, lon = 0, timestamp = ''2026-02-20T10:00'', precip_mm = 0,
      precip_prob = 10, temperature_c = None, wind_speed_kmh = None,
      humidity_percent = None, visibility_m = None, fog_risk = ''none'',
      rain_risk = ''none'', source = ''open-meteo'', description = ''''\<rparr>"

definition demo_toll :: TollPoint where
  "demo_toll = \<lparr>TollPoint.lat = 0, lon = 0, name = ''Pedagio'', operator = ''''\<rparr>"

definition demo_props :: "CongestionSegment list \<Rightarrow> Props" where
  "demo_props segs =
     \<lparr>routeGeometry = Some demo_geometry, samples = Some [demo_sample], cityNames = [],
      tollPoints = Some [demo_toll], accidentPoints = None,
      congestionSegments = Some segs, trafficLightPoints = None\<rparr>"

definition no_props :: Props where
  "no_props =
     \<lparr>routeGeometry = None, samples = None, cityNames = [], tollPoints = None,
      accidentPoints = None, congestionSegments = None, trafficLightPoints = None\<rparr>"

definition demo_refs :: Refs where
  "demo_refs = sync_refs (demo_props [demo_segment ''free'']) refs_initial"

section \<open>Properties of the phase simulator\<close>

lemma js_rem_nonneg: "0 \<le> a \<Longrightarrow> 0 < b \<Longrightarrow> js_rem a b = Some (a mod b)"
  by (cases "a = 0") (simp_all add: js_rem_def)

text \<open>
  C1. For a non-negative elapsed time and a positive cycle, the source function is the
  pure function of the specification: with \<open>cycle = green + yellow + red\<close> and
  \<open>pos = elapsedSec mod cycle\<close> it returns (Green, green - pos) when \<open>pos < green\<close>,
  (Yellow, green + yellow - pos) when \<open>green \<le> pos < green + yellow\<close>, and
  (Red, cycle - pos) otherwise. For the durations (30, 5, 25) it returns (Green, 30)
  at 0, (Yellow, 5) at 30, (Red, 25) at 35 and (Green, 30) at 60.
\<close>

theorem getPhaseAndRemaining_is_computePhase:
  assumes "0 \<le> elapsedSec" and "0 < green + yellow + red"
  shows "getPhaseAndRemaining green yellow red elapsedSec =
           (let cycle = green + yellow + red; pos = elapsedSec mod cycle in
            if pos < green then (Green, Some (green - pos))
            else if green \<le> pos \<and> pos < green + yellow
              then (Yellow, Some (green + yellow - pos))
            else (Red, Some (cycle - pos)))
         \<and> getPhaseAndRemaining 30 5 25 0 = (Green, Some 30)
         \<and> getPhaseAndRemaining 30 5 25 30 = (Yellow, Some 5)
         \<and> getPhaseAndRemaining 30 5 25 35 = (Red, Some 25)
         \<and> getPhaseAndRemaining 30 5 25 60 = (Green, Some 30)"
proof -
  have general: "getPhaseAndRemaining green yellow red elapsedSec =
           (let cycle = green + yellow + red; pos = elapsedSec mod cycle in
            if pos < green then (Green, Some (green - pos))
            else if green \<le> pos \<and> pos < green + yellow
              then (Yellow, Some (green + yellow - pos))
            else (Red, Some (cycle - pos)))"
    using assms
    by (simp add: getPhaseAndRemaining_def js_rem_nonneg Let_def)
  have e0: "getPhaseAndRemaining 30 5 25 0 = (Green, Some 30)"
    by (simp add: getPhaseAndRemaining_def js_rem_def)
  have e30: "getPhaseAndRemaining 30 5 25 30 = (Yellow, Some 5)"
    by (simp add: getPhaseAndRemaining_def js_rem_def)
  have e35: "getPhaseAndRemaining 30 5 25 35 = (Red, Some 25)"
    by (simp add: getPhaseAndRemaining_def js_rem_def)
  have e60: "getPhaseAndRemaining 30 5 25 60 = (Green, Some 30)"
    by (simp add: getPhaseAndRemaining_def js_rem_def)
  from general e0 e30 e35 e60 show ?thesis by blast
qed

theorem getPhaseAndRemaining_is_computePhase_witness:
  "(0::int) \<le> 47 \<and> (0::int) < 25 + 4 + 20
   \<and> getPhaseAndRemaining 25 4 20 47 = (Red, Some 2)"
  using getPhaseAndRemaining_is_computePhase [of 47 25 4 20]
  by simp




section \<open>Properties of the tick driver\<close>

lemma popup_inv_initial: "popup_inv popup_initial"
  by (simp add: popup_inv_def popup_initial_def)

lemma popup_inv_cases:
  assumes "popup_inv s"
  obtains "timers s = []"
  | h c where "timers s = [(h, c)]" and "cleanup_registered s" and "intervalRef s = Some h"
  using assms
  by (auto simp: popup_inv_def split: list.splits prod.splits)

lemma cleanup_clears_all:
  assumes "popup_inv s"
  shows "timers (if cleanup_registered s then clear_current s else s) = []"
  using assms
  by (rule popup_inv_cases) (simp_all add: clear_current_def clearInterval_def split: option.splits)

lemma timers_clear_current_empty:
  "timers s = [] \<Longrightarrow> timers (clear_current s) = []"
  by (simp add: clear_current_def clearInterval_def split: option.splits)

lemma deactivate_no_timers:
  assumes "popup_inv s" and "signal = None \<or> \<not> visible"
  shows "timers (popup_effect signal visible rnd s) = []"
proof -
  let ?s = "if cleanup_registered s then clear_current s else s"
  have "timers ?s = []" using assms(1) by (rule cleanup_clears_all)
  then have "timers (clear_current ?s) = []" by (rule timers_clear_current_empty)
  with assms(2) show ?thesis
    by (auto simp: popup_effect_def Let_def split: option.splits)
qed

lemma unmount_no_timers:
  assumes "popup_inv s"
  shows "timers (popup_unmount s) = []"
  using cleanup_clears_all [OF assms] by (simp add: popup_unmount_def)

lemma tick_without_timers: "timers s = [] \<Longrightarrow> popup_tick h s = s"
  by (simp add: popup_tick_def)

lemma ticks_without_timers: "timers s = [] \<Longrightarrow> foldl popup_step s (map Tick hs) = s"
  by (induction hs) (simp_all add: tick_without_timers)

lemma random_offset_in_cycle:
  fixes rnd :: real and c :: int
  assumes "0 \<le> rnd" and "rnd < 1" and "0 < c"
  shows "0 \<le> \<lfloor>rnd * of_int c\<rfloor>" and "\<lfloor>rnd * of_int c\<rfloor> < c"
proof -
  from assms have "0 \<le> rnd * of_int c" by simp
  then show "0 \<le> \<lfloor>rnd * of_int c\<rfloor>" by simp
  from assms have "rnd * of_int c < 1 * of_int c"
    by (intro mult_strict_right_mono) simp_all
  then show "\<lfloor>rnd * of_int c\<rfloor> < c" by (simp add: floor_less_iff)
qed

lemma activate_fresh_timer:
  assumes "popup_inv s"
  shows "timers (popup_effect (Some sg) True rnd s)
           = [(next_timer s,
               \<lparr>c_green = green_duration sg, c_yellow = yellow_duration sg,
                c_red = red_duration sg,
                elapsed = \<lfloor>rnd * of_int (green_duration sg + yellow_duration sg
                                            + red_duration sg)\<rfloor>\<rparr>)]"
    and "(phase (popup_effect (Some sg) True rnd s),
          countdown (popup_effect (Some sg) True rnd s))
           = getPhaseAndRemaining (green_duration sg) (yellow_duration sg) (red_duration sg)
               \<lfloor>rnd * of_int (green_duration sg + yellow_duration sg + red_duration sg)\<rfloor>"
proof -
  let ?s = "if cleanup_registered s then clear_current s else s"
  have empty: "timers ?s = []" using assms by (rule cleanup_clears_all)
  have next_eq: "next_timer ?s = next_timer s"
    by (simp add: clear_current_def clearInterval_def split: option.splits)
  show "timers (popup_effect (Some sg) True rnd s)
           = [(next_timer s,
               \<lparr>c_green = green_duration sg, c_yellow = yellow_duration sg,
                c_red = red_duration sg,
                elapsed = \<lfloor>rnd * of_int (green_duration sg + yellow_duration sg
                                            + red_duration sg)\<rfloor>\<rparr>)]"
    using empty next_eq by (simp add: popup_effect_def Let_def)
  show "(phase (popup_effect (Some sg) True rnd s),
          countdown (popup_effect (Some sg) True rnd s))
           = getPhaseAndRemaining (green_duration sg) (yellow_duration sg) (red_duration sg)
               \<lfloor>rnd * of_int (green_duration sg + yellow_duration sg + red_duration sg)\<rfloor>"
    by (simp add: popup_effect_def Let_def)
qed

lemma popup_inv_effect:
  assumes "popup_inv s"
  shows "popup_inv (popup_effect signal visible rnd s)"
proof (cases "signal = None \<or> \<not> visible")
  case True
  with assms have "timers (popup_effect signal visible rnd s) = []"
    by (rule deactivate_no_timers)
  then show ?thesis by (simp add: popup_inv_def)
next
  case False
  then obtain sg where sg: "signal = Some sg" and vis: "visible" by auto
  have "timers (popup_effect (Some sg) True rnd s) \<noteq> []
        \<and> cleanup_registered (popup_effect (Some sg) True rnd s)
        \<and> intervalRef (popup_effect (Some sg) True rnd s) = Some (next_timer s)"
    using activate_fresh_timer(1) [OF assms, of sg rnd]
    by (simp add: popup_effect_def Let_def clear_current_def clearInterval_def
        split: option.splits)
  with activate_fresh_timer(1) [OF assms, of sg rnd] show ?thesis
    unfolding sg using vis by (simp add: popup_inv_def)
qed

lemma popup_inv_tick:
  assumes "popup_inv s"
  shows "popup_inv (popup_tick h s)"
  using assms
  by (rule popup_inv_cases) (auto simp: popup_tick_def popup_inv_def Let_def)

lemma popup_inv_unmount:
  assumes "popup_inv s"
  shows "popup_inv (popup_unmount s)"
  using unmount_no_timers [OF assms] by (simp add: popup_inv_def)

lemma popup_inv_step: "popup_inv s \<Longrightarrow> popup_inv (popup_step s e)"
  by (cases e) (simp_all add: popup_inv_effect popup_inv_tick popup_inv_unmount)

lemma popup_inv_run: "popup_inv s \<Longrightarrow> popup_inv (foldl popup_step s es)"
  by (induction es arbitrary: s) (simp_all add: popup_inv_step)

text \<open>
  C9. In every state the component reaches, a run of the effect with no signal or
  with \<open>visible = false\<close>, and likewise unmounting the component, leaves no
  interval scheduled, so every later firing of the timer is without effect: no phase
  or countdown is emitted after deactivation, and no closure with its elapsed counter
  survives. Every activation (a visible
  signal) schedules exactly one new interval, whose counter starts at the offset
  \<open>floor (rnd * cycle)\<close> drawn in this run, within \<open>[0, cycle)\<close> for a positive
  cycle, and sets phase and countdown from that offset alone.
\<close>

theorem deactivation_stops_driver_activation_fresh:
  assumes "popup_inv s"
  shows "(signal = None \<or> \<not> visible \<longrightarrow>
            timers (popup_effect signal visible rnd s) = []
            \<and> (\<forall>hs. foldl popup_step (popup_effect signal visible rnd s) (map Tick hs)
                      = popup_effect signal visible rnd s))
       \<and> timers (popup_unmount s) = []
       \<and> (\<forall>hs. foldl popup_step (popup_unmount s) (map Tick hs) = popup_unmount s)
       \<and> (0 \<le> rnd' \<and> rnd' < 1 \<and> 0 < green_duration sg + yellow_duration sg + red_duration sg
            \<longrightarrow>
            (\<exists>offset. offset = \<lfloor>rnd' * of_int (green_duration sg + yellow_duration sg
                                                  + red_duration sg)\<rfloor>
               \<and> 0 \<le> offset
               \<and> offset < green_duration sg + yellow_duration sg + red_duration sg
               \<and> timers (popup_effect (Some sg) True rnd' s)
                   = [(next_timer s,
                       \<lparr>c_green = green_duration sg, c_yellow = yellow_duration sg,
                        c_red = red_duration sg, elapsed = offset\<rparr>)]
               \<and> (phase (popup_effect (Some sg) True rnd' s),
                   countdown (popup_effect (Some sg) True rnd' s))
                   = getPhaseAndRemaining (green_duration sg) (yellow_duration sg)
                       (red_duration sg) offset))"
proof (intro conjI impI)
  assume off: "signal = None \<or> \<not> visible"
  with assms show none: "timers (popup_effect signal visible rnd s) = []"
    by (rule deactivate_no_timers)
  show "\<forall>hs. foldl popup_step (popup_effect signal visible rnd s) (map Tick hs)
                      = popup_effect signal visible rnd s"
    using none by (simp add: ticks_without_timers)
next
  show "timers (popup_unmount s) = []" using assms by (rule unmount_no_timers)
next
  show "\<forall>hs. foldl popup_step (popup_unmount s) (map Tick hs) = popup_unmount s"
    using unmount_no_timers [OF assms] by (simp add: ticks_without_timers)
next
  assume h: "0 \<le> rnd' \<and> rnd' < 1
             \<and> 0 < green_duration sg + yellow_duration sg + red_duration sg"
  let ?c = "green_duration sg + yellow_duration sg + red_duration sg"
  from h have r0: "0 \<le> rnd'" and r1: "rnd' < 1" and c: "0 < ?c"
    by blast+
  have "0 \<le> \<lfloor>rnd' * of_int ?c\<rfloor>" and "\<lfloor>rnd' * of_int ?c\<rfloor> < ?c"
    using random_offset_in_cycle [OF r0 r1 c] by blast+
  with activate_fresh_timer [OF assms, of sg rnd']
  show "\<exists>offset. offset = \<lfloor>rnd' * of_int ?c\<rfloor>
               \<and> 0 \<le> offset \<and> offset < ?c
               \<and> timers (popup_effect (Some sg) True rnd' s)
                   = [(next_timer s,
                       \<lparr>c_green = green_duration sg, c_yellow = yellow_duration sg,
                        c_red = red_duration sg, elapsed = offset\<rparr>)]
               \<and> (phase (popup_effect (Some sg) True rnd' s),
                   countdown (popup_effect (Some sg) True rnd' s))
                   = getPhaseAndRemaining (green_duration sg) (yellow_duration sg)
                       (red_duration sg) offset"
    by blast
qed

theorem deactivation_stops_driver_activation_fresh_witness:
  "popup_inv (popup_effect (Some (signal_with 25 4 20)) True (1 / 2) popup_initial)
   \<and> timers (popup_effect None True 0
        (popup_effect (Some (signal_with 25 4 20)) True (1 / 2) popup_initial)) = []
   \<and> foldl popup_step
        (popup_effect None True 0
          (popup_effect (Some (signal_with 25 4 20)) True (1 / 2) popup_initial))
        (map Tick [1, 1])
       = popup_effect None True 0
          (popup_effect (Some (signal_with 25 4 20)) True (1 / 2) popup_initial)
   \<and> phase (popup_effect (Some (signal_with 25 4 20)) True (1 / 2) popup_initial) = Green
   \<and> phase (popup_tick 1
        (popup_effect (Some (signal_with 25 4 20)) True (1 / 2) popup_initial)) = Yellow
   \<and> timers (popup_unmount
        (popup_effect (Some (signal_with 25 4 20)) True (1 / 2) popup_initial)) = []
   \<and> (0::real) \<le> 1 / 4 \<and> (1 / 4 :: real) < 1
   \<and> timers (popup_effect (Some (signal_with 25 4 20)) True (1 / 4)
        (popup_effect (Some (signal_with 25 4 20)) True (1 / 2) popup_initial))
       = [(2, \<lparr>c_green = 25, c_yellow = 4, c_red = 20, elapsed = 12\<rparr>)]"
proof -
  let ?s = "popup_effect (Some (signal_with 25 4 20)) True (1 / 2) popup_initial"
  have inv: "popup_inv ?s"
    by (simp add: popup_inv_def popup_effect_def popup_initial_def signal_with_def Let_def)
  have nxt: "next_timer ?s = 2"
    by (simp add: popup_effect_def popup_initial_def signal_with_def Let_def)
  have fl: "\<lfloor>(1 / 4 :: real) * 49\<rfloor> = 12"
    by (simp add: floor_eq_iff)
  note t = deactivation_stops_driver_activation_fresh
             [OF inv, of None True 0 "1 / 4" "signal_with 25 4 20"]
  have a: "timers (popup_effect None True 0 ?s) = []"
    using t by simp
  have b: "foldl popup_step (popup_effect None True 0 ?s) (map Tick [1, 1])
             = popup_effect None True 0 ?s"
    using t by blast
  have c: "timers (popup_effect (Some (signal_with 25 4 20)) True (1 / 4) ?s)
       = [(2, \<lparr>c_green = 25, c_yellow = 4, c_red = 20, elapsed = 12\<rparr>)]"
    using t nxt fl by (simp add: signal_with_def)
  have fl2: "\<lfloor>(1 / 2 :: real) * 49\<rfloor> = 24"
    by (simp add: floor_eq_iff)
  have d: "phase ?s = Green" "phase (popup_tick 1 ?s) = Yellow"
    using fl2
    by (simp_all add: popup_effect_def popup_tick_def popup_initial_def signal_with_def
        getPhaseAndRemaining_def js_rem_def Let_def)
  have e: "timers (popup_unmount ?s) = []"
    using t by blast
  from inv a b c d e show ?thesis by simp
qed

section \<open>Properties of the job client\<close>

lemma pollRoute_loop_never_terminal:
  assumes "\<forall>k. \<exists>res. getRouteResult routeId k = Inr res
             \<and> (status res = Pending \<or> status res = Processing)"
  shows "pollRoute_loop getRouteResult routeId maxAttempts i fetches
           = (Inl TimeoutError, fetches + nat (maxAttempts - i))"
  using assms
proof (induction getRouteResult routeId maxAttempts i fetches rule: pollRoute_loop.induct)
  case (1 getRouteResult routeId maxAttempts i fetches)
  show ?case
  proof (cases "i < maxAttempts")
    case False
    then show ?thesis by simp
  next
    case True
    from "1.prems" obtain res where res: "getRouteResult routeId fetches = Inr res"
      and st: "status res = Pending \<or> status res = Processing"
      by blast
    from st have not_final: "\<not> (status res = Completed \<or> status res = Failed)"
      by auto
    have "pollRoute_loop getRouteResult routeId maxAttempts i fetches
            = pollRoute_loop getRouteResult routeId maxAttempts (i + 1) (Suc fetches)"
      using True res not_final by simp
    also have "\<dots> = (Inl TimeoutError, Suc fetches + nat (maxAttempts - (i + 1)))"
      using True res not_final "1.prems" by (rule "1.IH")
    also have "Suc fetches + nat (maxAttempts - (i + 1)) = fetches + nat (maxAttempts - i)"
      using True by simp
    finally show ?thesis .
  qed
qed

lemma pollRoute_loop_first_terminal:
  assumes "fetches \<le> n" and "int (n - fetches) < maxAttempts - i"
    and "\<forall>k. fetches \<le> k \<and> k < n \<longrightarrow> (\<exists>r. getRouteResult routeId k = Inr r
             \<and> (status r = Pending \<or> status r = Processing))"
    and "getRouteResult routeId n = Inr res"
    and "status res = Completed \<or> status res = Failed"
  shows "pollRoute_loop getRouteResult routeId maxAttempts i fetches = (Inr res, Suc n)"
  using assms
proof (induction getRouteResult routeId maxAttempts i fetches rule: pollRoute_loop.induct)
  case (1 getRouteResult routeId maxAttempts i fetches)
  from "1.prems"(2) have lt: "i < maxAttempts" by linarith
  show ?case
  proof (cases "fetches = n")
    case True
    with lt "1.prems"(4,5) show ?thesis by simp
  next
    case False
    with "1.prems"(1) have less: "fetches < n" by simp
    with "1.prems"(3) obtain r where r: "getRouteResult routeId fetches = Inr r"
      and st: "status r = Pending \<or> status r = Processing"
      by blast
    from st have not_final: "\<not> (status r = Completed \<or> status r = Failed)"
      by auto
    have step: "pollRoute_loop getRouteResult routeId maxAttempts i fetches
            = pollRoute_loop getRouteResult routeId maxAttempts (i + 1) (Suc fetches)"
      using lt r not_final by simp
    have a1: "Suc fetches \<le> n" using less by simp
    have a2: "int (n - Suc fetches) < maxAttempts - (i + 1)"
      using "1.prems"(2) less by linarith
    have a3: "\<forall>k. Suc fetches \<le> k \<and> k < n \<longrightarrow> (\<exists>r. getRouteResult routeId k = Inr r
             \<and> (status r = Pending \<or> status r = Processing))"
      using "1.prems"(3) by auto
    show ?thesis
      unfolding step
      using "1.IH" [OF lt r not_final a1 a2 a3 "1.prems"(4) "1.prems"(5)] .
  qed
qed

text \<open>
  C2. For every \<open>maxAttempts \<ge> 1\<close>: against a backend whose every response has
  status pending or processing, the poll loop issues exactly \<open>maxAttempts\<close> requests and
  then fails with the timeout error (once; nothing is retried); and when the first
  response with status completed or failed is the \<open>n\<close>-th one, within the budget, the
  loop ends there, after \<open>n + 1\<close> requests, and returns that RouteResult.
\<close>

theorem pollRoute_budget_and_first_terminal:
  assumes "1 \<le> maxAttempts"
  shows "((\<forall>k. \<exists>res. getRouteResult routeId k = Inr res
              \<and> (status res = Pending \<or> status res = Processing))
          \<longrightarrow> pollRoute getRouteResult routeId maxAttempts
                = (Inl TimeoutError, nat maxAttempts))
       \<and> (\<forall>n res. int n < maxAttempts
              \<and> (\<forall>k<n. \<exists>r. getRouteResult routeId k = Inr r
                     \<and> (status r = Pending \<or> status r = Processing))
              \<and> getRouteResult routeId n = Inr res
              \<and> (status res = Completed \<or> status res = Failed)
          \<longrightarrow> pollRoute getRouteResult routeId maxAttempts = (Inr res, Suc n))"
proof (intro conjI impI allI)
  assume "\<forall>k. \<exists>res. getRouteResult routeId k = Inr res
              \<and> (status res = Pending \<or> status res = Processing)"
  then have "pollRoute_loop getRouteResult routeId maxAttempts 0 0
               = (Inl TimeoutError, 0 + nat (maxAttempts - 0))"
    by (rule pollRoute_loop_never_terminal)
  then show "pollRoute getRouteResult routeId maxAttempts = (Inl TimeoutError, nat maxAttempts)"
    by (simp add: pollRoute_def)
next
  fix n res
  assume h: "int n < maxAttempts
              \<and> (\<forall>k<n. \<exists>r. getRouteResult routeId k = Inr r
                     \<and> (status r = Pending \<or> status r = Processing))
              \<and> getRouteResult routeId n = Inr res
              \<and> (status res = Completed \<or> status res = Failed)"
  then have "pollRoute_loop getRouteResult routeId maxAttempts 0 0 = (Inr res, Suc n)"
    by (intro pollRoute_loop_first_terminal) auto
  then show "pollRoute getRouteResult routeId maxAttempts = (Inr res, Suc n)"
    by (simp add: pollRoute_def)
qed

theorem pollRoute_budget_and_first_terminal_witness:
  "(1::int) \<le> 3
   \<and> pollRoute (\<lambda>rid k. Inr (bare_result rid Processing)) ''job'' 3
       = (Inl TimeoutError, 3)
   \<and> pollRoute (\<lambda>rid k. Inr (bare_result rid (if k < 2 then Processing else Completed)))
         ''job'' 3
       = (Inr (bare_result ''job'' Completed), 3)"
proof -
  have h: "(1::int) \<le> 3" by simp
  have a: "pollRoute (\<lambda>rid k. Inr (bare_result rid Processing)) ''job'' 3
      = (Inl TimeoutError, 3)"
    using pollRoute_budget_and_first_terminal
            [OF h, of "\<lambda>rid k. Inr (bare_result rid Processing)" "''job''", THEN conjunct1]
    by (simp add: bare_result_def)
  have b: "pollRoute (\<lambda>rid k. Inr (bare_result rid (if k < 2 then Processing else Completed)))
         ''job'' 3
       = (Inr (bare_result ''job'' Completed), 3)"
    using pollRoute_budget_and_first_terminal
            [OF h, of "\<lambda>rid k. Inr (bare_result rid (if k < 2 then Processing else Completed))"
               "''job''", THEN conjunct2, rule_format, of 2 "bare_result ''job'' Completed"]
    by (simp add: bare_result_def)
  from h a b show ?thesis by blast
qed




section \<open>Popup exclusivity\<close>

text \<open>
  C7. The claim fails on two runs of the handlers. After a click on a sample and the
  user closing the persistent popup, entering a sample shows no hover popup (the click
  reference is never reset), although the same hover on the initial state shows one:
  closing does not re-enable hover popups. And with the persistent popup open,
  entering a toll point shows a hover popup beside it: the guard of the sample
  handler is missing from the toll, accident and signal handlers.
\<close>

theorem popup_exclusivity_broken:
  "\<not> transient_open (foldl ui_step ui_initial
        [Click SamplesCircles True, UserCloses 0, MouseEnter SamplesCircles True])
   \<and> \<not> persistent_open (foldl ui_step ui_initial
        [Click SamplesCircles True, UserCloses 0, MouseEnter SamplesCircles True])
   \<and> transient_open (foldl ui_step ui_initial [MouseEnter SamplesCircles True])
   \<and> persistent_open (foldl ui_step ui_initial
        [Click SamplesCircles True, MouseEnter TollCircles True])
   \<and> transient_open (foldl ui_step ui_initial
        [Click SamplesCircles True, MouseEnter TollCircles True])"
  by (simp add: ui_initial_def on_click_samples_def on_mouseenter_samples_def
      on_mouseenter_points_def remove_if_set_def popup_remove_def new_popup_def
      persistent_open_def transient_open_def Let_def)

section \<open>Properties of the layer synchronisation\<close>

subsection \<open>Primitive operations\<close>

lemma filter_id_neq_absent:
  "i \<notin> set (map f xs) \<Longrightarrow> filter (\<lambda>x. f x \<noteq> i) xs = xs"
  by (induction xs) auto

lemma remove_layer_if_present_eq:
  "remove_layer_if_present i s = s\<lparr>layers := filter (\<lambda>l. layer_id l \<noteq> i) (layers s)\<rparr>"
  by (simp add: remove_layer_if_present_def removeLayer_def getLayer_def filter_id_neq_absent)

lemma remove_source_if_present_eq:
  assumes "i \<notin> set (map layer_source (layers s))"
  shows "remove_source_if_present i s
           = Inr (s\<lparr>sources := filter (\<lambda>p. fst p \<noteq> i) (sources s)\<rparr>)"
  using assms
  by (simp add: remove_source_if_present_def removeSource_def getSource_def
      filter_id_neq_absent)

lemma addSource_fresh:
  "i \<notin> set (map fst (sources s)) \<Longrightarrow> addSource i d s = Inr (s\<lparr>sources := sources s @ [(i, d)]\<rparr>)"
  by (simp add: addSource_def getSource_def)

lemma addLayer_fresh:
  "layer_id l \<notin> set (map layer_id (layers s)) \<Longrightarrow> addLayer l s = s\<lparr>layers := layers s @ [l]\<rparr>"
  by (simp add: addLayer_def getLayer_def)

lemma and_then_Inr [simp]: "and_then (Inr s) f = f s"
  by (simp add: and_then_def)

lemma and_then_Inl [simp]: "and_then (Inl e) f = Inl e"
  by (simp add: and_then_def)

subsection \<open>Decimal rendering\<close>

lemma digit_char_inj:
  assumes "a < 10" and "b < 10" and "digit_char a = digit_char b"
  shows "a = b"
proof -
  from assms(3) have "of_char (char_of (48 + a) :: char) = (of_char (char_of (48 + b) :: char) :: nat)"
    by (simp add: digit_char_def)
  then have "(48 + a) mod 256 = (48 + b) mod 256" by simp
  with assms(1,2) show ?thesis by simp
qed

lemma show_nat_nonempty: "show_nat n \<noteq> []"
  by (subst show_nat.simps) simp

lemma show_nat_inj: "show_nat n = show_nat m \<Longrightarrow> n = m"
proof (induction n arbitrary: m rule: show_nat.induct)
  case (1 n)
  show ?case
  proof (cases "n < 10")
    case small_n: True
    show ?thesis
    proof (cases "m < 10")
      case True
      with small_n "1.prems" show ?thesis
        by (simp add: show_nat.simps [of n] show_nat.simps [of m] digit_char_inj)
    next
      case False
      with small_n "1.prems" have "[digit_char n] = show_nat (m div 10) @ [digit_char (m mod 10)]"
        by (simp add: show_nat.simps [of n] show_nat.simps [of m])
      then have "show_nat (m div 10) = []" by simp
      with show_nat_nonempty show ?thesis by blast
    qed
  next
    case big_n: False
    show ?thesis
    proof (cases "m < 10")
      case True
      with big_n "1.prems" have "show_nat (n div 10) @ [digit_char (n mod 10)] = [digit_char m]"
        by (simp add: show_nat.simps [of n] show_nat.simps [of m])
      then have "show_nat (n div 10) = []" by simp
      with show_nat_nonempty show ?thesis by blast
    next
      case False
      with big_n "1.prems" have eq: "show_nat (n div 10) = show_nat (m div 10)"
        and d: "digit_char (n mod 10) = digit_char (m mod 10)"
        by (simp_all add: show_nat.simps [of n] show_nat.simps [of m])
      from "1.IH" [OF big_n eq] have q: "n div 10 = m div 10" .
      from d have r: "n mod 10 = m mod 10" by (intro digit_char_inj) simp_all
      from q r show ?thesis by (metis div_mult_mod_eq)
    qed
  qed
qed

lemma sourceId_inj [simp]: "sourceId i = sourceId j \<longleftrightarrow> i = j"
  by (auto simp: sourceId_def dest: show_nat_inj)

lemma lineId_inj [simp]: "lineId i = lineId j \<longleftrightarrow> i = j"
  by (auto simp: lineId_def dest: show_nat_inj)

lemma outlineId_inj [simp]: "outlineId i = outlineId j \<longleftrightarrow> i = j"
  by (auto simp: outlineId_def dest: show_nat_inj)

lemma line_neq_outline [simp]: "lineId i \<noteq> outlineId j" "outlineId j \<noteq> lineId i"
  by (simp_all add: lineId_def outlineId_def)

lemma congestion_ids [simp]:
  "is_congestion_id (sourceId i)" "is_congestion_id (lineId i)" "is_congestion_id (outlineId i)"
  by (simp_all add: is_congestion_id_def sourceId_def lineId_def outlineId_def)

lemma fixed_ids_not_congestion [simp]:
  "\<not> is_congestion_id ''route''" "\<not> is_congestion_id ''route-line''"
  "\<not> is_congestion_id ''route-outline''"
  "\<not> is_congestion_id ''tolls''" "\<not> is_congestion_id ''toll-labels''"
  "\<not> is_congestion_id ''toll-circles''"
  "\<not> is_congestion_id ''accidents''" "\<not> is_congestion_id ''accident-labels''"
  "\<not> is_congestion_id ''accident-circles''"
  "\<not> is_congestion_id ''signals''" "\<not> is_congestion_id ''signal-labels''"
  "\<not> is_congestion_id ''signal-circles''"
  "\<not> is_congestion_id ''samples''" "\<not> is_congestion_id ''samples-labels''"
  "\<not> is_congestion_id ''samples-circles''" "\<not> is_congestion_id ''samples-circles-stroke''"
  by (simp_all add: is_congestion_id_def)

subsection \<open>Closed forms of the channel functions\<close>

lemma surface_okD:
  assumes "surface_ok s"
  shows "distinct (map layer_id (layers s))" and "distinct (map fst (sources s))"
    and "\<And>l. l \<in> set (layers s) \<Longrightarrow> owner_ok l"
  using assms by (auto simp: surface_ok_def list_all_iff)

lemma surface_ok_initial: "surface_ok surface_initial"
  by (simp add: surface_ok_def surface_initial_def)

lemma source_unused_after_drop:
  assumes "\<And>l. l \<in> set ls \<Longrightarrow> layer_source l = src \<Longrightarrow> dl (layer_id l)"
  shows "src \<notin> set (map layer_source (filter (\<lambda>l. \<not> dl (layer_id l)) ls))"
  using assms by auto

lemma addTollLayers_rebuilt:
  assumes "surface_ok s"
  shows "addTollLayers refs s =
           Inr (rebuilt (\<lambda>i. i \<in> set [''toll-labels'', ''toll-circles''])
                  (\<lambda>i. i = ''tolls'') (toll_layers refs) (toll_source refs) s)"
proof -
  have unused: "''tolls'' \<notin> set (map layer_source
      (filter (\<lambda>l. \<not> (layer_id l \<in> set [''toll-labels'', ''toll-circles'']))
         (layers s)))"
    using surface_okD(3) [OF assms]
    by (intro source_unused_after_drop) (simp add: owner_ok_def)
  show ?thesis
    using unused
    by (auto simp: addTollLayers_def remove_layer_if_present_eq
        remove_source_if_present_eq addSource_def addLayer_def getSource_def getLayer_def
        rebuilt_def Let_def toll_layers_def toll_source_def)
qed

lemma addAccidentLayers_rebuilt:
  assumes "surface_ok s"
  shows "addAccidentLayers refs s =
           Inr (rebuilt (\<lambda>i. i \<in> set [''accident-labels'', ''accident-circles''])
                  (\<lambda>i. i = ''accidents'') (accident_layers refs) (accident_source refs) s)"
proof -
  have unused: "''accidents'' \<notin> set (map layer_source
      (filter (\<lambda>l. \<not> (layer_id l \<in> set [''accident-labels'', ''accident-circles'']))
         (layers s)))"
    using surface_okD(3) [OF assms]
    by (intro source_unused_after_drop) (simp add: owner_ok_def)
  show ?thesis
    using unused
    by (auto simp: addAccidentLayers_def remove_layer_if_present_eq
        remove_source_if_present_eq addSource_def addLayer_def getSource_def getLayer_def
        rebuilt_def Let_def accident_layers_def accident_source_def)
qed

lemma addTrafficLightLayers_rebuilt:
  assumes "surface_ok s"
  shows "addTrafficLightLayers refs s =
           Inr (rebuilt (\<lambda>i. i \<in> set [''signal-labels'', ''signal-circles''])
                  (\<lambda>i. i = ''signals'') (signal_layers refs) (signal_source refs) s)"
proof -
  have unused: "''signals'' \<notin> set (map layer_source
      (filter (\<lambda>l. \<not> (layer_id l \<in> set [''signal-labels'', ''signal-circles'']))
         (layers s)))"
    using surface_okD(3) [OF assms]
    by (intro source_unused_after_drop) (simp add: owner_ok_def)
  show ?thesis
    using unused
    by (auto simp: addTrafficLightLayers_def remove_layer_if_present_eq
        remove_source_if_present_eq addSource_def addLayer_def getSource_def getLayer_def
        rebuilt_def Let_def signal_layers_def signal_source_def)
qed

lemma addSampleLayers_rebuilt:
  assumes "surface_ok s"
  shows "addSampleLayers refs s =
           Inr (rebuilt (\<lambda>i. i \<in> set [''samples-labels'', ''samples-circles'', ''samples-circles-stroke''])
                  (\<lambda>i. i = ''samples'') (sample_layers refs) (sample_source refs) s)"
proof -
  have unused: "''samples'' \<notin> set (map layer_source
      (filter (\<lambda>l. \<not> (layer_id l \<in> set [''samples-labels'', ''samples-circles'', ''samples-circles-stroke'']))
         (layers s)))"
    using surface_okD(3) [OF assms]
    by (intro source_unused_after_drop) (simp add: owner_ok_def)
  show ?thesis
    using unused
    by (auto simp: addSampleLayers_def remove_layer_if_present_eq
        remove_source_if_present_eq addSource_def addLayer_def getSource_def getLayer_def
        rebuilt_def Let_def sample_layers_def sample_source_def or_empty_def split: option.splits)
qed

lemma rebuilt_nothing: "rebuilt (\<lambda>i. False) (\<lambda>i. False) [] [] s = s"
  by (simp add: rebuilt_def)

lemma addRouteLayers_rebuilt:
  assumes "surface_ok s"
  shows "addRouteLayers refs s =
           Inr (rebuilt (\<lambda>i. routeGeomRef refs \<noteq> None \<and> i \<in> set [''route-line'', ''route-outline''])
                  (\<lambda>i. routeGeomRef refs \<noteq> None \<and> i = ''route'')
                  (route_layers refs) (route_source refs) s)"
proof (cases "routeGeomRef refs")
  case None
  then show ?thesis
    by (simp add: addRouteLayers_def route_layers_def route_source_def rebuilt_nothing)
next
  case (Some geom)
  have unused: "''route'' \<notin> set (map layer_source
      (filter (\<lambda>l. \<not> (layer_id l \<in> set [''route-line'', ''route-outline'']))
         (layers s)))"
    using surface_okD(3) [OF assms(1)]
    by (intro source_unused_after_drop) (simp add: owner_ok_def)
  show ?thesis
    using unused Some
    by (auto simp: addRouteLayers_def remove_layer_if_present_eq
        remove_source_if_present_eq addSource_def addLayer_def getSource_def getLayer_def
        rebuilt_def Let_def route_layers_def route_source_def)
qed

subsection \<open>The congestion channel\<close>

lemma remove_congestion_layers_eq:
  assumes "distinct (map layer_id ls)"
    and "\<forall>l\<in>set ls. is_congestion_id (layer_id l) \<longrightarrow> layer_id l \<in> set (map layer_id (layers s))"
  shows "remove_congestion_layers ls s =
           s\<lparr>layers := filter (\<lambda>l. \<not> (is_congestion_id (layer_id l)
                                        \<and> layer_id l \<in> set (map layer_id ls))) (layers s)\<rparr>"
  using assms
proof (induction ls arbitrary: s)
  case Nil
  then show ?case by simp
next
  case (Cons l ls)
  show ?case
  proof (cases "is_congestion_id (layer_id l)")
    case False
    have "remove_congestion_layers (l # ls) s = remove_congestion_layers ls s"
      using False by simp
    also have "\<dots> = s\<lparr>layers := filter (\<lambda>l. \<not> (is_congestion_id (layer_id l)
                                        \<and> layer_id l \<in> set (map layer_id ls))) (layers s)\<rparr>"
      using Cons.prems by (intro Cons.IH) auto
    also have "filter (\<lambda>l. \<not> (is_congestion_id (layer_id l)
                                        \<and> layer_id l \<in> set (map layer_id ls))) (layers s)
        = filter (\<lambda>l'. \<not> (is_congestion_id (layer_id l')
                                        \<and> layer_id l' \<in> set (map layer_id (l # ls)))) (layers s)"
      using False by (intro filter_cong) auto
    finally show ?thesis .
  next
    case True
    let ?s1 = "s\<lparr>layers := filter (\<lambda>l'. layer_id l' \<noteq> layer_id l) (layers s)\<rparr>"
    have present: "getLayer (layer_id l) s"
      using True Cons.prems(2) by (simp add: getLayer_def)
    have "remove_congestion_layers (l # ls) s = remove_congestion_layers ls ?s1"
      using True present by (simp add: removeLayer_def)
    also have "\<dots> = ?s1\<lparr>layers := filter (\<lambda>l. \<not> (is_congestion_id (layer_id l)
                                        \<and> layer_id l \<in> set (map layer_id ls))) (layers ?s1)\<rparr>"
    proof (intro Cons.IH)
      show "distinct (map layer_id ls)" using Cons.prems(1) by simp
      show "\<forall>l'\<in>set ls. is_congestion_id (layer_id l')
               \<longrightarrow> layer_id l' \<in> set (map layer_id (layers ?s1))"
      proof (intro ballI impI)
        fix l' assume l': "l' \<in> set ls" and c: "is_congestion_id (layer_id l')"
        have "layer_id l \<notin> set (map layer_id ls)" using Cons.prems(1) by simp
        moreover have "layer_id l' \<in> set (map layer_id ls)" using l' by simp
        ultimately have ne: "layer_id l' \<noteq> layer_id l" by metis
        from l' c Cons.prems(2) obtain x where "x \<in> set (layers s)"
          and "layer_id x = layer_id l'" by auto
        with ne show "layer_id l' \<in> set (map layer_id (layers ?s1))"
          by (auto simp: image_iff)
      qed
    qed
    also have "\<dots> = s\<lparr>layers := filter (\<lambda>l'. \<not> (is_congestion_id (layer_id l')
                                        \<and> layer_id l' \<in> set (map layer_id (l # ls)))) (layers s)\<rparr>"
    proof -
      have "filter (\<lambda>l. \<not> (is_congestion_id (layer_id l) \<and> layer_id l \<in> set (map layer_id ls)))
              (filter (\<lambda>l'. layer_id l' \<noteq> layer_id l) (layers s))
            = filter (\<lambda>l'. \<not> (is_congestion_id (layer_id l')
                                 \<and> layer_id l' \<in> set (map layer_id (l # ls)))) (layers s)"
        unfolding filter_filter using True by (intro filter_cong) auto
      then show ?thesis by simp
    qed
    finally show ?thesis .
  qed
qed

lemma remove_congestion_layers_all:
  assumes "distinct (map layer_id (layers s))"
  shows "remove_congestion_layers (layers s) s =
           s\<lparr>layers := filter (\<lambda>l. \<not> is_congestion_id (layer_id l)) (layers s)\<rparr>"
proof -
  have "remove_congestion_layers (layers s) s =
           s\<lparr>layers := filter (\<lambda>l. \<not> (is_congestion_id (layer_id l)
                                \<and> layer_id l \<in> set (map layer_id (layers s)))) (layers s)\<rparr>"
    using assms by (intro remove_congestion_layers_eq) auto
  also have "filter (\<lambda>l. \<not> (is_congestion_id (layer_id l)
                                \<and> layer_id l \<in> set (map layer_id (layers s)))) (layers s)
      = filter (\<lambda>l. \<not> is_congestion_id (layer_id l)) (layers s)"
    by (intro filter_cong) auto
  finally show ?thesis .
qed

lemma remove_congestion_sources_eq:
  assumes "distinct ks"
    and "\<forall>k\<in>set ks. is_congestion_id k \<longrightarrow> k \<in> set (map fst (sources s))"
    and "\<forall>l\<in>set (layers s). \<not> is_congestion_id (layer_source l)"
  shows "remove_congestion_sources ks s =
           Inr (s\<lparr>sources := filter (\<lambda>p. \<not> (is_congestion_id (fst p) \<and> fst p \<in> set ks))
                                (sources s)\<rparr>)"
  using assms
proof (induction ks arbitrary: s)
  case Nil
  then show ?case by simp
next
  case (Cons k ks)
  show ?case
  proof (cases "is_congestion_id k")
    case False
    have "remove_congestion_sources (k # ks) s = remove_congestion_sources ks s"
      using False by simp
    also have "\<dots> = Inr (s\<lparr>sources := filter (\<lambda>p. \<not> (is_congestion_id (fst p) \<and> fst p \<in> set ks))
                                (sources s)\<rparr>)"
      using Cons.prems by (intro Cons.IH) auto
    also have "filter (\<lambda>p. \<not> (is_congestion_id (fst p) \<and> fst p \<in> set ks)) (sources s)
        = filter (\<lambda>p. \<not> (is_congestion_id (fst p) \<and> fst p \<in> set (k # ks))) (sources s)"
      using False by (intro filter_cong) auto
    finally show ?thesis .
  next
    case True
    let ?s1 = "s\<lparr>sources := filter (\<lambda>p. fst p \<noteq> k) (sources s)\<rparr>"
    have present: "getSource k s"
      using True Cons.prems(2) by (simp add: getSource_def)
    have unused: "k \<notin> set (map layer_source (layers s))"
      using True Cons.prems(3) by auto
    have "remove_congestion_sources (k # ks) s = remove_congestion_sources ks ?s1"
      using True present unused by (simp add: removeSource_def)
    also have "\<dots> = Inr (?s1\<lparr>sources := filter (\<lambda>p. \<not> (is_congestion_id (fst p) \<and> fst p \<in> set ks))
                                (sources ?s1)\<rparr>)"
    proof (intro Cons.IH)
      show "distinct ks" using Cons.prems(1) by simp
      show "\<forall>k'\<in>set ks. is_congestion_id k' \<longrightarrow> k' \<in> set (map fst (sources ?s1))"
      proof (intro ballI impI)
        fix k' assume k': "k' \<in> set ks" and c: "is_congestion_id k'"
        from k' Cons.prems(1) have ne: "k' \<noteq> k" by auto
        from k' c Cons.prems(2) obtain x where "x \<in> set (sources s)" and "fst x = k'"
          by auto
        with ne show "k' \<in> set (map fst (sources ?s1))"
          by (cases x) (auto simp: image_iff)
      qed
      show "\<forall>l\<in>set (layers ?s1). \<not> is_congestion_id (layer_source l)"
        using Cons.prems(3) by simp
    qed
    also have "\<dots> = Inr (s\<lparr>sources := filter (\<lambda>p. \<not> (is_congestion_id (fst p)
                                \<and> fst p \<in> set (k # ks))) (sources s)\<rparr>)"
    proof -
      have "filter (\<lambda>p. \<not> (is_congestion_id (fst p) \<and> fst p \<in> set ks))
              (filter (\<lambda>p. fst p \<noteq> k) (sources s))
            = filter (\<lambda>p. \<not> (is_congestion_id (fst p) \<and> fst p \<in> set (k # ks))) (sources s)"
        unfolding filter_filter using True by (intro filter_cong) auto
      then show ?thesis by simp
    qed
    finally show ?thesis .
  qed
qed

lemma add_segments_eq:
  assumes "\<forall>j\<ge>idx. sourceId j \<notin> set (map fst (sources s))
              \<and> outlineId j \<notin> set (map layer_id (layers s))
              \<and> lineId j \<notin> set (map layer_id (layers s))"
  shows "add_segments idx segs s =
           Inr (s\<lparr>layers := layers s @ seg_layers idx segs,
                  sources := sources s @ seg_sources idx segs\<rparr>)"
  using assms
proof (induction segs arbitrary: idx s)
  case Nil
  then show ?case by simp
next
  case (Cons seg segs)
  let ?s1 = "s\<lparr>layers := layers s @
                  [\<lparr>layer_id = outlineId idx, layer_type = Line, layer_source = sourceId idx\<rparr>,
                   \<lparr>layer_id = lineId idx, layer_type = Line, layer_source = sourceId idx\<rparr>],
                sources := sources s @ [(sourceId idx, SegmentData seg)]\<rparr>"
  have step: "add_segments idx (seg # segs) s = add_segments (Suc idx) segs ?s1"
    using Cons.prems [rule_format, of idx]
    by (cases s) (simp add: addSource_def addLayer_def getSource_def getLayer_def)
  have fresh: "\<forall>j\<ge>Suc idx. sourceId j \<notin> set (map fst (sources ?s1))
              \<and> outlineId j \<notin> set (map layer_id (layers ?s1))
              \<and> lineId j \<notin> set (map layer_id (layers ?s1))"
    using Cons.prems by auto
  show ?case
    unfolding step Cons.IH [OF fresh] by (cases s) simp
qed

lemma notin_filtered: "P i \<Longrightarrow> i \<notin> set (map f (filter (\<lambda>x. \<not> P (f x)) xs))"
  by auto

lemma seg_layers_members:
  assumes "l \<in> set (seg_layers idx segs)"
  shows "\<exists>j\<ge>idx. (layer_id l = outlineId j \<or> layer_id l = lineId j)
            \<and> layer_source l = sourceId j"
  using assms
proof (induction segs arbitrary: idx)
  case Nil
  then show ?case by simp
next
  case (Cons seg segs)
  from Cons.prems consider
      "l = \<lparr>layer_id = outlineId idx, layer_type = Line, layer_source = sourceId idx\<rparr>"
    | "l = \<lparr>layer_id = lineId idx, layer_type = Line, layer_source = sourceId idx\<rparr>"
    | "l \<in> set (seg_layers (Suc idx) segs)"
    by auto
  then show ?case
  proof cases
    case 1
    then show ?thesis by auto
  next
    case 2
    then show ?thesis by auto
  next
    case 3
    from Cons.IH [OF 3] obtain j where "Suc idx \<le> j"
      and "(layer_id l = outlineId j \<or> layer_id l = lineId j) \<and> layer_source l = sourceId j"
      by blast
    then show ?thesis by (intro exI [of _ j]) simp
  qed
qed

lemma seg_sources_members:
  assumes "p \<in> set (seg_sources idx segs)"
  shows "\<exists>j\<ge>idx. fst p = sourceId j"
  using assms
proof (induction segs arbitrary: idx)
  case Nil
  then show ?case by simp
next
  case (Cons seg segs)
  from Cons.prems consider "p = (sourceId idx, SegmentData seg)"
    | "p \<in> set (seg_sources (Suc idx) segs)"
    by auto
  then show ?case
  proof cases
    case 1
    then show ?thesis by auto
  next
    case 2
    from Cons.IH [OF 2] obtain j where "Suc idx \<le> j" and "fst p = sourceId j" by blast
    then show ?thesis by (intro exI [of _ j]) simp
  qed
qed

lemma seg_layers_congestion:
  "l \<in> set (seg_layers idx segs) \<Longrightarrow> is_congestion_id (layer_id l) \<and> owner_ok l"
proof -
  assume "l \<in> set (seg_layers idx segs)"
  then obtain j where "layer_id l = outlineId j \<or> layer_id l = lineId j"
    and src: "layer_source l = sourceId j"
    using seg_layers_members by blast
  then have c: "is_congestion_id (layer_id l)" by auto
  have "\<not> is_congestion_id ''route''" "\<not> is_congestion_id ''tolls''"
    "\<not> is_congestion_id ''accidents''" "\<not> is_congestion_id ''signals''"
    "\<not> is_congestion_id ''samples''"
    by simp_all
  then have "sourceId j \<noteq> ''route''" "sourceId j \<noteq> ''tolls''" "sourceId j \<noteq> ''accidents''"
    "sourceId j \<noteq> ''signals''" "sourceId j \<noteq> ''samples''"
    using congestion_ids(1) [of j] by metis+
  with c src show ?thesis by (simp add: owner_ok_def)
qed

lemma seg_sources_congestion:
  "p \<in> set (seg_sources idx segs) \<Longrightarrow> is_congestion_id (fst p)"
  using seg_sources_members by fastforce

lemma distinct_seg_layers: "distinct (map layer_id (seg_layers idx segs))"
proof (induction segs arbitrary: idx)
  case Nil
  show ?case by simp
next
  case (Cons seg segs)
  have later: "outlineId idx \<notin> set (map layer_id (seg_layers (Suc idx) segs))"
      "lineId idx \<notin> set (map layer_id (seg_layers (Suc idx) segs))"
    using seg_layers_members [of _ "Suc idx" segs] by fastforce+
  with Cons.IH [of "Suc idx"] show ?case by simp
qed

lemma distinct_seg_sources: "distinct (map fst (seg_sources idx segs))"
proof (induction segs arbitrary: idx)
  case Nil
  show ?case by simp
next
  case (Cons seg segs)
  have "sourceId idx \<notin> set (map fst (seg_sources (Suc idx) segs))"
    using seg_sources_members [of _ "Suc idx" segs] by fastforce
  with Cons.IH [of "Suc idx"] show ?case by simp
qed

lemma length_seg_sources [simp]: "length (seg_sources idx segs) = length segs"
  by (induction segs arbitrary: idx) simp_all

lemma length_seg_layers [simp]: "length (seg_layers idx segs) = 2 * length segs"
  by (induction segs arbitrary: idx) simp_all

lemma addCongestionLayers_rebuilt:
  assumes "surface_ok s"
  shows "addCongestionLayers refs s =
           Inr (rebuilt is_congestion_id is_congestion_id
                  (seg_layers 0 (congestionSegmentsRef refs))
                  (seg_sources 0 (congestionSegmentsRef refs)) s)"
proof -
  let ?segs = "congestionSegmentsRef refs"
  let ?m1 = "s\<lparr>layers := filter (\<lambda>l. \<not> is_congestion_id (layer_id l)) (layers s)\<rparr>"
  let ?m2 = "?m1\<lparr>sources := filter (\<lambda>p. \<not> is_congestion_id (fst p)) (sources s)\<rparr>"
  have m1: "remove_congestion_layers (layers s) s = ?m1"
    using surface_okD(1) [OF assms] by (rule remove_congestion_layers_all)
  have no_user: "\<forall>l\<in>set (layers ?m1). \<not> is_congestion_id (layer_source l)"
    using surface_okD(3) [OF assms] by (auto simp: owner_ok_def)
  have "remove_congestion_sources (map fst (sources ?m1)) ?m1 =
          Inr (?m1\<lparr>sources := filter (\<lambda>p. \<not> (is_congestion_id (fst p)
                          \<and> fst p \<in> set (map fst (sources ?m1)))) (sources ?m1)\<rparr>)"
    using surface_okD(2) [OF assms] no_user
    by (intro remove_congestion_sources_eq) simp_all
  moreover have "filter (\<lambda>p. \<not> (is_congestion_id (fst p)
                          \<and> fst p \<in> set (map fst (sources ?m1)))) (sources ?m1)
      = filter (\<lambda>p. \<not> is_congestion_id (fst p)) (sources s)"
    by (intro filter_cong) auto
  ultimately have m2: "remove_congestion_sources (map fst (sources ?m1)) ?m1 = Inr ?m2"
    by simp
  have fresh: "\<forall>j\<ge>0. sourceId j \<notin> set (map fst (sources ?m2))
              \<and> outlineId j \<notin> set (map layer_id (layers ?m2))
              \<and> lineId j \<notin> set (map layer_id (layers ?m2))"
  proof -
    have "\<forall>j\<ge>0. sourceId j \<notin> set (map fst
                 (filter (\<lambda>p. \<not> is_congestion_id (fst p)) (sources s)))
              \<and> outlineId j \<notin> set (map layer_id
                 (filter (\<lambda>l. \<not> is_congestion_id (layer_id l)) (layers s)))
              \<and> lineId j \<notin> set (map layer_id
                 (filter (\<lambda>l. \<not> is_congestion_id (layer_id l)) (layers s)))"
      by (intro allI impI conjI notin_filtered congestion_ids)
    then show ?thesis by simp
  qed
  have add: "add_segments 0 ?segs ?m2 =
           Inr (?m2\<lparr>layers := layers ?m2 @ seg_layers 0 ?segs,
                  sources := sources ?m2 @ seg_sources 0 ?segs\<rparr>)"
    using fresh by (rule add_segments_eq)
  have "addCongestionLayers refs s = (if ?segs = [] then Inr ?m2 else add_segments 0 ?segs ?m2)"
    unfolding addCongestionLayers_def Let_def m1 m2 by simp
  also have "\<dots> = Inr (rebuilt is_congestion_id is_congestion_id
                  (seg_layers 0 ?segs) (seg_sources 0 ?segs) s)"
    unfolding add by (cases s) (simp add: rebuilt_def)
  finally show ?thesis .
qed

subsection \<open>Composing channel rebuilds\<close>

lemma surface_ok_rebuilt:
  assumes "surface_ok s"
    and "distinct (map layer_id nl)"
    and "\<And>l. l \<in> set nl \<Longrightarrow> dl (layer_id l) \<and> owner_ok l"
    and "distinct (map fst ns)"
    and "\<And>p. p \<in> set ns \<Longrightarrow> ds (fst p)"
  shows "surface_ok (rebuilt dl ds nl ns s)"
proof -
  have l1: "distinct (map layer_id (filter (\<lambda>l. \<not> dl (layer_id l)) (layers s)))"
    using surface_okD(1) [OF assms(1)] by (rule distinct_map_filter)
  have l2: "set (map layer_id (filter (\<lambda>l. \<not> dl (layer_id l)) (layers s)))
              \<inter> set (map layer_id nl) = {}"
    using assms(3) by auto
  have s1: "distinct (map fst (filter (\<lambda>p. \<not> ds (fst p)) (sources s)))"
    using surface_okD(2) [OF assms(1)] by (rule distinct_map_filter)
  have s2: "set (map fst (filter (\<lambda>p. \<not> ds (fst p)) (sources s))) \<inter> set (map fst ns) = {}"
    using assms(5) by auto
  have own: "list_all owner_ok (filter (\<lambda>l. \<not> dl (layer_id l)) (layers s) @ nl)"
    using surface_okD(3) [OF assms(1)] assms(3) by (auto simp: list_all_iff)
  show ?thesis
    unfolding surface_ok_def rebuilt_def
    using l1 l2 assms(2) s1 s2 assms(4) own by simp
qed

lemma rebuilt_rebuilt:
  assumes "\<And>l. l \<in> set nl1 \<Longrightarrow> \<not> dl2 (layer_id l)"
    and "\<And>p. p \<in> set ns1 \<Longrightarrow> \<not> ds2 (fst p)"
  shows "rebuilt dl2 ds2 nl2 ns2 (rebuilt dl1 ds1 nl1 ns1 s)
           = rebuilt (\<lambda>i. dl1 i \<or> dl2 i) (\<lambda>i. ds1 i \<or> ds2 i) (nl1 @ nl2) (ns1 @ ns2) s"
proof -
  have "filter (\<lambda>l. \<not> dl2 (layer_id l)) nl1 = nl1"
    using assms(1) by (simp add: filter_id_conv)
  moreover have "filter (\<lambda>p. \<not> ds2 (fst p)) ns1 = ns1"
    using assms(2) by (simp add: filter_id_conv)
  ultimately show ?thesis
    by (cases s) (simp add: rebuilt_def)
qed

lemma rebuilt_idem:
  assumes "\<And>l. l \<in> set nl \<Longrightarrow> dl (layer_id l)"
    and "\<And>p. p \<in> set ns \<Longrightarrow> ds (fst p)"
  shows "rebuilt dl ds nl ns (rebuilt dl ds nl ns s) = rebuilt dl ds nl ns s"
proof -
  have "filter (\<lambda>l. \<not> dl (layer_id l)) nl = []"
    using assms(1) by (simp add: filter_empty_conv)
  moreover have "filter (\<lambda>p. \<not> ds (fst p)) ns = []"
    using assms(2) by (simp add: filter_empty_conv)
  ultimately show ?thesis
    by (cases s) (simp add: rebuilt_def)
qed

text \<open>What the drawn lists contain.\<close>

lemma route_layers_members:
  "l \<in> set (route_layers refs) \<Longrightarrow>
     routeGeomRef refs \<noteq> None \<and> layer_id l \<in> set [''route-line'', ''route-outline'']
     \<and> layer_source l = ''route''"
  by (cases "routeGeomRef refs") (auto simp: route_layers_def split: if_splits)

lemma sample_layers_members:
  "l \<in> set (sample_layers refs) \<Longrightarrow>
     layer_id l \<in> set [''samples-labels'', ''samples-circles'', ''samples-circles-stroke'']
     \<and> layer_source l = ''samples''"
  by (auto simp: sample_layers_def split: if_splits)

lemma toll_layers_members:
  "l \<in> set (toll_layers refs) \<Longrightarrow>
     layer_id l \<in> set [''toll-labels'', ''toll-circles''] \<and> layer_source l = ''tolls''"
  by (auto simp: toll_layers_def split: if_splits)

lemma accident_layers_members:
  "l \<in> set (accident_layers refs) \<Longrightarrow>
     layer_id l \<in> set [''accident-labels'', ''accident-circles'']
     \<and> layer_source l = ''accidents''"
  by (auto simp: accident_layers_def split: if_splits)

lemma signal_layers_members:
  "l \<in> set (signal_layers refs) \<Longrightarrow>
     layer_id l \<in> set [''signal-labels'', ''signal-circles''] \<and> layer_source l = ''signals''"
  by (auto simp: signal_layers_def split: if_splits)

lemma route_source_members:
  "p \<in> set (route_source refs) \<Longrightarrow> routeGeomRef refs \<noteq> None \<and> fst p = ''route''"
  by (cases "routeGeomRef refs") (auto simp: route_source_def)

lemma sample_source_members: "p \<in> set (sample_source refs) \<Longrightarrow> fst p = ''samples''"
  by (auto simp: sample_source_def split: if_splits)

lemma toll_source_members: "p \<in> set (toll_source refs) \<Longrightarrow> fst p = ''tolls''"
  by (auto simp: toll_source_def split: if_splits)

lemma accident_source_members: "p \<in> set (accident_source refs) \<Longrightarrow> fst p = ''accidents''"
  by (auto simp: accident_source_def split: if_splits)

lemma signal_source_members: "p \<in> set (signal_source refs) \<Longrightarrow> fst p = ''signals''"
  by (auto simp: signal_source_def split: if_splits)

text \<open>Every channel function keeps the surface well-formed.\<close>

lemma surface_ok_route:
  assumes "surface_ok s"
  shows "surface_ok (rebuilt (\<lambda>i. routeGeomRef refs \<noteq> None \<and> i \<in> set [''route-line'', ''route-outline''])
                  (\<lambda>i. routeGeomRef refs \<noteq> None \<and> i = ''route'')
                  (route_layers refs) (route_source refs) s)"
proof (rule surface_ok_rebuilt [OF assms])
  show "distinct (map layer_id (route_layers refs))"
    by (simp add: route_layers_def split: option.splits)
  show "distinct (map fst (route_source refs))"
    by (simp add: route_source_def split: option.splits)
  show "\<And>l. l \<in> set (route_layers refs) \<Longrightarrow>
          (routeGeomRef refs \<noteq> None \<and> layer_id l \<in> set [''route-line'', ''route-outline''])
          \<and> owner_ok l"
    by (drule route_layers_members) (simp add: owner_ok_def)
  show "\<And>p. p \<in> set (route_source refs) \<Longrightarrow> routeGeomRef refs \<noteq> None \<and> fst p = ''route''"
    by (rule route_source_members)
qed

lemma surface_ok_congestion:
  assumes "surface_ok s"
  shows "surface_ok (rebuilt is_congestion_id is_congestion_id
                  (seg_layers 0 segs) (seg_sources 0 segs) s)"
  using assms
  by (rule surface_ok_rebuilt)
     (simp_all add: distinct_seg_layers distinct_seg_sources seg_layers_congestion
        seg_sources_congestion)

lemma surface_ok_samples:
  assumes "surface_ok s"
  shows "surface_ok (rebuilt
           (\<lambda>i. i \<in> set [''samples-labels'', ''samples-circles'', ''samples-circles-stroke''])
           (\<lambda>i. i = ''samples'') (sample_layers refs) (sample_source refs) s)"
proof (rule surface_ok_rebuilt [OF assms])
  show "distinct (map layer_id (sample_layers refs))" by (simp add: sample_layers_def)
  show "distinct (map fst (sample_source refs))" by (simp add: sample_source_def)
  show "\<And>l. l \<in> set (sample_layers refs) \<Longrightarrow>
          layer_id l \<in> set [''samples-labels'', ''samples-circles'', ''samples-circles-stroke'']
          \<and> owner_ok l"
    by (drule sample_layers_members) (simp add: owner_ok_def)
  show "\<And>p. p \<in> set (sample_source refs) \<Longrightarrow> fst p = ''samples''"
    by (rule sample_source_members)
qed

lemma surface_ok_tolls:
  assumes "surface_ok s"
  shows "surface_ok (rebuilt (\<lambda>i. i \<in> set [''toll-labels'', ''toll-circles''])
           (\<lambda>i. i = ''tolls'') (toll_layers refs) (toll_source refs) s)"
proof (rule surface_ok_rebuilt [OF assms])
  show "distinct (map layer_id (toll_layers refs))" by (simp add: toll_layers_def)
  show "distinct (map fst (toll_source refs))" by (simp add: toll_source_def)
  show "\<And>l. l \<in> set (toll_layers refs) \<Longrightarrow>
          layer_id l \<in> set [''toll-labels'', ''toll-circles''] \<and> owner_ok l"
    by (drule toll_layers_members) (simp add: owner_ok_def)
  show "\<And>p. p \<in> set (toll_source refs) \<Longrightarrow> fst p = ''tolls''"
    by (rule toll_source_members)
qed

lemma surface_ok_accidents:
  assumes "surface_ok s"
  shows "surface_ok (rebuilt (\<lambda>i. i \<in> set [''accident-labels'', ''accident-circles''])
           (\<lambda>i. i = ''accidents'') (accident_layers refs) (accident_source refs) s)"
proof (rule surface_ok_rebuilt [OF assms])
  show "distinct (map layer_id (accident_layers refs))" by (simp add: accident_layers_def)
  show "distinct (map fst (accident_source refs))" by (simp add: accident_source_def)
  show "\<And>l. l \<in> set (accident_layers refs) \<Longrightarrow>
          layer_id l \<in> set [''accident-labels'', ''accident-circles''] \<and> owner_ok l"
    by (drule accident_layers_members) (simp add: owner_ok_def)
  show "\<And>p. p \<in> set (accident_source refs) \<Longrightarrow> fst p = ''accidents''"
    by (rule accident_source_members)
qed

lemma surface_ok_signals:
  assumes "surface_ok s"
  shows "surface_ok (rebuilt (\<lambda>i. i \<in> set [''signal-labels'', ''signal-circles''])
           (\<lambda>i. i = ''signals'') (signal_layers refs) (signal_source refs) s)"
proof (rule surface_ok_rebuilt [OF assms])
  show "distinct (map layer_id (signal_layers refs))" by (simp add: signal_layers_def)
  show "distinct (map fst (signal_source refs))" by (simp add: signal_source_def)
  show "\<And>l. l \<in> set (signal_layers refs) \<Longrightarrow>
          layer_id l \<in> set [''signal-labels'', ''signal-circles''] \<and> owner_ok l"
    by (drule signal_layers_members) (simp add: owner_ok_def)
  show "\<And>p. p \<in> set (signal_source refs) \<Longrightarrow> fst p = ''signals''"
    by (rule signal_source_members)
qed

subsection \<open>The full rebuild\<close>

lemma rebuildLayers_rebuilt:
  assumes "surface_ok s"
  shows "rebuildLayers refs s =
           Inr (rebuilt (managed_layer refs) (managed_source refs)
                  (drawn_layers refs) (drawn_sources refs) s)"
    and "surface_ok (rebuilt (managed_layer refs) (managed_source refs)
                  (drawn_layers refs) (drawn_sources refs) s)"
proof -
  let ?segs = "congestionSegmentsRef refs"
  define s1 where "s1 = rebuilt
      (\<lambda>i. routeGeomRef refs \<noteq> None \<and> i \<in> set [''route-line'', ''route-outline''])
      (\<lambda>i. routeGeomRef refs \<noteq> None \<and> i = ''route'') (route_layers refs) (route_source refs) s"
  define s2 where "s2 = rebuilt is_congestion_id is_congestion_id
      (seg_layers 0 ?segs) (seg_sources 0 ?segs) s1"
  define s3 where "s3 = rebuilt
      (\<lambda>i. i \<in> set [''samples-labels'', ''samples-circles'', ''samples-circles-stroke''])
      (\<lambda>i. i = ''samples'') (sample_layers refs) (sample_source refs) s2"
  define s4 where "s4 = rebuilt (\<lambda>i. i \<in> set [''toll-labels'', ''toll-circles''])
      (\<lambda>i. i = ''tolls'') (toll_layers refs) (toll_source refs) s3"
  define s5 where "s5 = rebuilt (\<lambda>i. i \<in> set [''accident-labels'', ''accident-circles''])
      (\<lambda>i. i = ''accidents'') (accident_layers refs) (accident_source refs) s4"
  define s6 where "s6 = rebuilt (\<lambda>i. i \<in> set [''signal-labels'', ''signal-circles''])
      (\<lambda>i. i = ''signals'') (signal_layers refs) (signal_source refs) s5"
  have ok1: "surface_ok s1" unfolding s1_def using assms by (rule surface_ok_route)
  have ok2: "surface_ok s2" unfolding s2_def using ok1 by (rule surface_ok_congestion)
  have ok3: "surface_ok s3" unfolding s3_def using ok2 by (rule surface_ok_samples)
  have ok4: "surface_ok s4" unfolding s4_def using ok3 by (rule surface_ok_tolls)
  have ok5: "surface_ok s5" unfolding s5_def using ok4 by (rule surface_ok_accidents)
  have ok6: "surface_ok s6" unfolding s6_def using ok5 by (rule surface_ok_signals)
  have r1: "addRouteLayers refs s = Inr s1"
    unfolding s1_def using assms by (rule addRouteLayers_rebuilt)
  have r2: "addCongestionLayers refs s1 = Inr s2"
    unfolding s2_def using ok1 by (rule addCongestionLayers_rebuilt)
  have r3: "addSampleLayers refs s2 = Inr s3"
    unfolding s3_def using ok2 by (rule addSampleLayers_rebuilt)
  have r4: "addTollLayers refs s3 = Inr s4"
    unfolding s4_def using ok3 by (rule addTollLayers_rebuilt)
  have r5: "addAccidentLayers refs s4 = Inr s5"
    unfolding s5_def using ok4 by (rule addAccidentLayers_rebuilt)
  have r6: "addTrafficLightLayers refs s5 = Inr s6"
    unfolding s6_def using ok5 by (rule addTrafficLightLayers_rebuilt)
  have run: "rebuildLayers refs s = Inr s6"
    by (simp add: rebuildLayers_def r1 r2 r3 r4 r5 r6)
  have c2: "s2 = rebuilt
      (\<lambda>i. (routeGeomRef refs \<noteq> None \<and> i \<in> set [''route-line'', ''route-outline''])
            \<or> is_congestion_id i)
      (\<lambda>i. (routeGeomRef refs \<noteq> None \<and> i = ''route'') \<or> is_congestion_id i)
      (route_layers refs @ seg_layers 0 ?segs) (route_source refs @ seg_sources 0 ?segs) s"
    unfolding s2_def s1_def
    by (rule rebuilt_rebuilt)
       (auto dest!: route_layers_members route_source_members)
  have c3: "s3 = rebuilt
      (\<lambda>i. ((routeGeomRef refs \<noteq> None \<and> i \<in> set [''route-line'', ''route-outline''])
            \<or> is_congestion_id i)
            \<or> i \<in> set [''samples-labels'', ''samples-circles'', ''samples-circles-stroke''])
      (\<lambda>i. ((routeGeomRef refs \<noteq> None \<and> i = ''route'') \<or> is_congestion_id i)
            \<or> i = ''samples'')
      ((route_layers refs @ seg_layers 0 ?segs) @ sample_layers refs)
      ((route_source refs @ seg_sources 0 ?segs) @ sample_source refs) s"
    unfolding s3_def c2
    by (rule rebuilt_rebuilt)
       (auto dest!: route_layers_members route_source_members seg_layers_congestion
          seg_sources_congestion)
  have c4: "s4 = rebuilt
      (\<lambda>i. (((routeGeomRef refs \<noteq> None \<and> i \<in> set [''route-line'', ''route-outline''])
            \<or> is_congestion_id i)
            \<or> i \<in> set [''samples-labels'', ''samples-circles'', ''samples-circles-stroke''])
            \<or> i \<in> set [''toll-labels'', ''toll-circles''])
      (\<lambda>i. (((routeGeomRef refs \<noteq> None \<and> i = ''route'') \<or> is_congestion_id i)
            \<or> i = ''samples'') \<or> i = ''tolls'')
      (((route_layers refs @ seg_layers 0 ?segs) @ sample_layers refs) @ toll_layers refs)
      (((route_source refs @ seg_sources 0 ?segs) @ sample_source refs) @ toll_source refs) s"
    unfolding s4_def c3
    by (rule rebuilt_rebuilt)
       (auto dest!: route_layers_members route_source_members seg_layers_congestion
          seg_sources_congestion sample_layers_members sample_source_members)
  have c5: "s5 = rebuilt
      (\<lambda>i. ((((routeGeomRef refs \<noteq> None \<and> i \<in> set [''route-line'', ''route-outline''])
            \<or> is_congestion_id i)
            \<or> i \<in> set [''samples-labels'', ''samples-circles'', ''samples-circles-stroke''])
            \<or> i \<in> set [''toll-labels'', ''toll-circles''])
            \<or> i \<in> set [''accident-labels'', ''accident-circles''])
      (\<lambda>i. ((((routeGeomRef refs \<noteq> None \<and> i = ''route'') \<or> is_congestion_id i)
            \<or> i = ''samples'') \<or> i = ''tolls'') \<or> i = ''accidents'')
      ((((route_layers refs @ seg_layers 0 ?segs) @ sample_layers refs) @ toll_layers refs)
         @ accident_layers refs)
      ((((route_source refs @ seg_sources 0 ?segs) @ sample_source refs) @ toll_source refs)
         @ accident_source refs) s"
    unfolding s5_def c4
    by (rule rebuilt_rebuilt)
       (auto dest!: route_layers_members route_source_members seg_layers_congestion
          seg_sources_congestion sample_layers_members sample_source_members
          toll_layers_members toll_source_members)
  have c6: "s6 = rebuilt
      (\<lambda>i. (((((routeGeomRef refs \<noteq> None \<and> i \<in> set [''route-line'', ''route-outline''])
            \<or> is_congestion_id i)
            \<or> i \<in> set [''samples-labels'', ''samples-circles'', ''samples-circles-stroke''])
            \<or> i \<in> set [''toll-labels'', ''toll-circles''])
            \<or> i \<in> set [''accident-labels'', ''accident-circles''])
            \<or> i \<in> set [''signal-labels'', ''signal-circles''])
      (\<lambda>i. (((((routeGeomRef refs \<noteq> None \<and> i = ''route'') \<or> is_congestion_id i)
            \<or> i = ''samples'') \<or> i = ''tolls'') \<or> i = ''accidents'') \<or> i = ''signals'')
      (((((route_layers refs @ seg_layers 0 ?segs) @ sample_layers refs) @ toll_layers refs)
         @ accident_layers refs) @ signal_layers refs)
      (((((route_source refs @ seg_sources 0 ?segs) @ sample_source refs) @ toll_source refs)
         @ accident_source refs) @ signal_source refs) s"
    unfolding s6_def c5
    by (rule rebuilt_rebuilt)
       (auto dest!: route_layers_members route_source_members seg_layers_congestion
          seg_sources_congestion sample_layers_members sample_source_members
          toll_layers_members toll_source_members accident_layers_members
          accident_source_members)
  have dl: "(\<lambda>i. (((((routeGeomRef refs \<noteq> None \<and> i \<in> set [''route-line'', ''route-outline''])
            \<or> is_congestion_id i)
            \<or> i \<in> set [''samples-labels'', ''samples-circles'', ''samples-circles-stroke''])
            \<or> i \<in> set [''toll-labels'', ''toll-circles''])
            \<or> i \<in> set [''accident-labels'', ''accident-circles''])
            \<or> i \<in> set [''signal-labels'', ''signal-circles'']) = managed_layer refs"
    unfolding managed_layer_def by (intro ext) blast
  have ds: "(\<lambda>i. (((((routeGeomRef refs \<noteq> None \<and> i = ''route'') \<or> is_congestion_id i)
            \<or> i = ''samples'') \<or> i = ''tolls'') \<or> i = ''accidents'') \<or> i = ''signals'')
            = managed_source refs"
    unfolding managed_source_def by (intro ext) blast
  have final: "s6 = rebuilt (managed_layer refs) (managed_source refs)
                  (drawn_layers refs) (drawn_sources refs) s"
    unfolding c6 dl ds drawn_layers_def drawn_sources_def by simp
  show "rebuildLayers refs s =
           Inr (rebuilt (managed_layer refs) (managed_source refs)
                  (drawn_layers refs) (drawn_sources refs) s)"
    using run final by simp
  show "surface_ok (rebuilt (managed_layer refs) (managed_source refs)
                  (drawn_layers refs) (drawn_sources refs) s)"
    using ok6 final by simp
qed

lemma drawn_layers_managed:
  "l \<in> set (drawn_layers refs) \<Longrightarrow> managed_layer refs (layer_id l)"
  unfolding drawn_layers_def managed_layer_def
  by (auto dest!: route_layers_members seg_layers_congestion sample_layers_members
      toll_layers_members accident_layers_members signal_layers_members)

lemma drawn_sources_managed:
  "p \<in> set (drawn_sources refs) \<Longrightarrow> managed_source refs (fst p)"
  unfolding drawn_sources_def managed_source_def
  by (auto dest!: route_source_members seg_sources_congestion sample_source_members
      toll_source_members accident_source_members signal_source_members)

lemma error_events_rebuilt [simp]: "error_events (rebuilt dl ds nl ns s) = error_events s"
  by (simp add: rebuilt_def)



subsection \<open>The congestion channel across handlers\<close>

lemma congestion_view_other:
  assumes "\<And>i. is_congestion_id i \<Longrightarrow> \<not> dl i"
    and "\<And>l. l \<in> set nl \<Longrightarrow> \<not> is_congestion_id (layer_id l)"
    and "\<And>i. is_congestion_id i \<Longrightarrow> \<not> ds i"
    and "\<And>p. p \<in> set ns \<Longrightarrow> \<not> is_congestion_id (fst p)"
  shows "congestion_layers (rebuilt dl ds nl ns s) = congestion_layers s"
    and "congestion_sources (rebuilt dl ds nl ns s) = congestion_sources s"
proof -
  have "filter (\<lambda>l. is_congestion_id (layer_id l)) nl = []"
    using assms(2) by (simp add: filter_empty_conv)
  moreover have "filter (\<lambda>l. is_congestion_id (layer_id l))
                   (filter (\<lambda>l. \<not> dl (layer_id l)) (layers s))
                 = filter (\<lambda>l. is_congestion_id (layer_id l)) (layers s)"
    unfolding filter_filter using assms(1) by (intro filter_cong) auto
  ultimately show "congestion_layers (rebuilt dl ds nl ns s) = congestion_layers s"
    by (simp add: congestion_layers_def rebuilt_def)
  have "filter (\<lambda>p. is_congestion_id (fst p)) ns = []"
    using assms(4) by (simp add: filter_empty_conv)
  moreover have "filter (\<lambda>p. is_congestion_id (fst p))
                   (filter (\<lambda>p. \<not> ds (fst p)) (sources s))
                 = filter (\<lambda>p. is_congestion_id (fst p)) (sources s)"
    unfolding filter_filter using assms(3) by (intro filter_cong) auto
  ultimately show "congestion_sources (rebuilt dl ds nl ns s) = congestion_sources s"
    by (simp add: congestion_sources_def rebuilt_def)
qed

lemma congestion_view_self:
  "congestion_layers (rebuilt is_congestion_id is_congestion_id
      (seg_layers 0 segs) (seg_sources 0 segs) s) = seg_layers 0 segs"
  "congestion_sources (rebuilt is_congestion_id is_congestion_id
      (seg_layers 0 segs) (seg_sources 0 segs) s) = seg_sources 0 segs"
proof -
  have "filter (\<lambda>l. is_congestion_id (layer_id l)) (seg_layers 0 segs) = seg_layers 0 segs"
    by (simp add: filter_id_conv seg_layers_congestion)
  then show "congestion_layers (rebuilt is_congestion_id is_congestion_id
      (seg_layers 0 segs) (seg_sources 0 segs) s) = seg_layers 0 segs"
    by (simp add: congestion_layers_def rebuilt_def)
  have "filter (\<lambda>p. is_congestion_id (fst p)) (seg_sources 0 segs) = seg_sources 0 segs"
    by (simp add: filter_id_conv seg_sources_congestion)
  then show "congestion_sources (rebuilt is_congestion_id is_congestion_id
      (seg_layers 0 segs) (seg_sources 0 segs) s) = seg_sources 0 segs"
    by (simp add: congestion_sources_def rebuilt_def)
qed

lemma keeps_congestion_route: "keeps_congestion (addRouteLayers refs)"
  unfolding keeps_congestion_def
proof (intro allI impI)
  fix s assume ok: "surface_ok s"
  let ?s' = "rebuilt (\<lambda>i. routeGeomRef refs \<noteq> None \<and> i \<in> set [''route-line'', ''route-outline''])
                  (\<lambda>i. routeGeomRef refs \<noteq> None \<and> i = ''route'')
                  (route_layers refs) (route_source refs) s"
  have "congestion_layers ?s' = congestion_layers s \<and> congestion_sources ?s' = congestion_sources s"
    by (intro conjI congestion_view_other)
       (auto dest!: route_layers_members route_source_members)
  with addRouteLayers_rebuilt [OF ok, of refs] surface_ok_route [OF ok, of refs]
  show "\<exists>s'. addRouteLayers refs s = Inr s' \<and> surface_ok s' \<and> error_events s' = error_events s
              \<and> congestion_layers s' = congestion_layers s
              \<and> congestion_sources s' = congestion_sources s"
    by (intro exI [of _ ?s']) simp
qed

lemma keeps_congestion_samples: "keeps_congestion (addSampleLayers refs)"
  unfolding keeps_congestion_def
proof (intro allI impI)
  fix s assume ok: "surface_ok s"
  let ?s' = "rebuilt
           (\<lambda>i. i \<in> set [''samples-labels'', ''samples-circles'', ''samples-circles-stroke''])
           (\<lambda>i. i = ''samples'') (sample_layers refs) (sample_source refs) s"
  have "congestion_layers ?s' = congestion_layers s \<and> congestion_sources ?s' = congestion_sources s"
    by (intro conjI congestion_view_other)
       (auto dest!: sample_layers_members sample_source_members)
  with addSampleLayers_rebuilt [OF ok, of refs] surface_ok_samples [OF ok, of refs]
  show "\<exists>s'. addSampleLayers refs s = Inr s' \<and> surface_ok s' \<and> error_events s' = error_events s
              \<and> congestion_layers s' = congestion_layers s
              \<and> congestion_sources s' = congestion_sources s"
    by (intro exI [of _ ?s']) simp
qed

lemma keeps_congestion_tolls: "keeps_congestion (addTollLayers refs)"
  unfolding keeps_congestion_def
proof (intro allI impI)
  fix s assume ok: "surface_ok s"
  let ?s' = "rebuilt (\<lambda>i. i \<in> set [''toll-labels'', ''toll-circles''])
           (\<lambda>i. i = ''tolls'') (toll_layers refs) (toll_source refs) s"
  have "congestion_layers ?s' = congestion_layers s \<and> congestion_sources ?s' = congestion_sources s"
    by (intro conjI congestion_view_other)
       (auto dest!: toll_layers_members toll_source_members)
  with addTollLayers_rebuilt [OF ok, of refs] surface_ok_tolls [OF ok, of refs]
  show "\<exists>s'. addTollLayers refs s = Inr s' \<and> surface_ok s' \<and> error_events s' = error_events s
              \<and> congestion_layers s' = congestion_layers s
              \<and> congestion_sources s' = congestion_sources s"
    by (intro exI [of _ ?s']) simp
qed

lemma keeps_congestion_accidents: "keeps_congestion (addAccidentLayers refs)"
  unfolding keeps_congestion_def
proof (intro allI impI)
  fix s assume ok: "surface_ok s"
  let ?s' = "rebuilt (\<lambda>i. i \<in> set [''accident-labels'', ''accident-circles''])
           (\<lambda>i. i = ''accidents'') (accident_layers refs) (accident_source refs) s"
  have "congestion_layers ?s' = congestion_layers s \<and> congestion_sources ?s' = congestion_sources s"
    by (intro conjI congestion_view_other)
       (auto dest!: accident_layers_members accident_source_members)
  with addAccidentLayers_rebuilt [OF ok, of refs] surface_ok_accidents [OF ok, of refs]
  show "\<exists>s'. addAccidentLayers refs s = Inr s' \<and> surface_ok s' \<and> error_events s' = error_events s
              \<and> congestion_layers s' = congestion_layers s
              \<and> congestion_sources s' = congestion_sources s"
    by (intro exI [of _ ?s']) simp
qed

lemma keeps_congestion_signals: "keeps_congestion (addTrafficLightLayers refs)"
  unfolding keeps_congestion_def
proof (intro allI impI)
  fix s assume ok: "surface_ok s"
  let ?s' = "rebuilt (\<lambda>i. i \<in> set [''signal-labels'', ''signal-circles''])
           (\<lambda>i. i = ''signals'') (signal_layers refs) (signal_source refs) s"
  have "congestion_layers ?s' = congestion_layers s \<and> congestion_sources ?s' = congestion_sources s"
    by (intro conjI congestion_view_other)
       (auto dest!: signal_layers_members signal_source_members)
  with addTrafficLightLayers_rebuilt [OF ok, of refs] surface_ok_signals [OF ok, of refs]
  show "\<exists>s'. addTrafficLightLayers refs s = Inr s' \<and> surface_ok s'
              \<and> error_events s' = error_events s
              \<and> congestion_layers s' = congestion_layers s
              \<and> congestion_sources s' = congestion_sources s"
    by (intro exI [of _ ?s']) simp
qed

lemma sets_congestion_add:
  "sets_congestion (congestionSegmentsRef refs) (addCongestionLayers refs)"
  unfolding sets_congestion_def
  using addCongestionLayers_rebuilt surface_ok_congestion congestion_view_self
  by (metis error_events_rebuilt)

lemma keeps_congestion_id: "keeps_congestion Inr"
  by (simp add: keeps_congestion_def)

lemma keeps_then_keeps:
  assumes "keeps_congestion f" and "keeps_congestion g"
  shows "keeps_congestion (\<lambda>s. and_then (f s) g)"
  unfolding keeps_congestion_def
proof (intro allI impI)
  fix s assume "surface_ok s"
  with assms(1) obtain s1 where "f s = Inr s1" "surface_ok s1"
    "error_events s1 = error_events s" "congestion_layers s1 = congestion_layers s"
    "congestion_sources s1 = congestion_sources s"
    unfolding keeps_congestion_def by blast
  moreover from assms(2) \<open>surface_ok s1\<close> obtain s2 where "g s1 = Inr s2" "surface_ok s2"
    "error_events s2 = error_events s1" "congestion_layers s2 = congestion_layers s1"
    "congestion_sources s2 = congestion_sources s1"
    unfolding keeps_congestion_def by blast
  ultimately show "\<exists>s'. and_then (f s) g = Inr s' \<and> surface_ok s'
      \<and> error_events s' = error_events s \<and> congestion_layers s' = congestion_layers s
      \<and> congestion_sources s' = congestion_sources s"
    by (intro exI [of _ s2]) simp
qed

lemma keeps_then_sets:
  assumes "keeps_congestion f" and "sets_congestion segs g"
  shows "sets_congestion segs (\<lambda>s. and_then (f s) g)"
  unfolding sets_congestion_def
proof (intro allI impI)
  fix s assume "surface_ok s"
  with assms(1) obtain s1 where "f s = Inr s1" "surface_ok s1"
    "error_events s1 = error_events s"
    unfolding keeps_congestion_def by blast
  moreover from assms(2) \<open>surface_ok s1\<close> obtain s2 where "g s1 = Inr s2" "surface_ok s2"
    "error_events s2 = error_events s1" "congestion_layers s2 = seg_layers 0 segs"
    "congestion_sources s2 = seg_sources 0 segs"
    unfolding sets_congestion_def by blast
  ultimately show "\<exists>s'. and_then (f s) g = Inr s' \<and> surface_ok s'
      \<and> error_events s' = error_events s \<and> congestion_layers s' = seg_layers 0 segs
      \<and> congestion_sources s' = seg_sources 0 segs"
    by (intro exI [of _ s2]) simp
qed

lemma sets_then_keeps:
  assumes "sets_congestion segs f" and "keeps_congestion g"
  shows "sets_congestion segs (\<lambda>s. and_then (f s) g)"
  unfolding sets_congestion_def
proof (intro allI impI)
  fix s assume "surface_ok s"
  with assms(1) obtain s1 where "f s = Inr s1" "surface_ok s1"
    "error_events s1 = error_events s" "congestion_layers s1 = seg_layers 0 segs"
    "congestion_sources s1 = seg_sources 0 segs"
    unfolding sets_congestion_def by blast
  moreover from assms(2) \<open>surface_ok s1\<close> obtain s2 where "g s1 = Inr s2" "surface_ok s2"
    "error_events s2 = error_events s1" "congestion_layers s2 = congestion_layers s1"
    "congestion_sources s2 = congestion_sources s1"
    unfolding keeps_congestion_def by blast
  ultimately show "\<exists>s'. and_then (f s) g = Inr s' \<and> surface_ok s'
      \<and> error_events s' = error_events s \<and> congestion_layers s' = seg_layers 0 segs
      \<and> congestion_sources s' = seg_sources 0 segs"
    by (intro exI [of _ s2]) simp
qed

lemma sets_congestion_effect:
  "sets_congestion (congestionSegmentsRef refs) (effect_congestionSegments refs)"
  unfolding effect_congestionSegments_def
  by (intro keeps_then_sets keeps_congestion_route sets_congestion_add)

lemma sets_congestion_rebuildLayers:
  "sets_congestion (congestionSegmentsRef refs) (rebuildLayers refs)"
  unfolding rebuildLayers_def
  by (intro sets_then_keeps keeps_then_sets keeps_congestion_route sets_congestion_add
      keeps_congestion_samples keeps_congestion_tolls keeps_congestion_accidents
      keeps_congestion_signals)

lemma sets_then_sets:
  "sets_congestion segs f \<Longrightarrow> sets_congestion segs g \<Longrightarrow>
     sets_congestion segs (\<lambda>s. and_then (f s) g)"
  unfolding sets_congestion_def
  by (metis and_then_Inr)

lemma sets_congestion_on_result_changed:
  "sets_congestion (or_empty (congestionSegments props)) (on_result_changed props refs0)"
proof -
  let ?refs = "sync_refs props refs0"
  have segs: "congestionSegmentsRef ?refs = or_empty (congestionSegments props)"
    by (simp add: sync_refs_def)
  have first: "sets_congestion (congestionSegmentsRef ?refs) (effect_routeGeometry props ?refs)
               \<or> keeps_congestion (effect_routeGeometry props ?refs)"
  proof (cases "routeGeometry props")
    case None
    then have "effect_routeGeometry props ?refs = Inr"
      by (intro ext) (simp add: effect_routeGeometry_def)
    then show ?thesis by (simp add: keeps_congestion_id)
  next
    case (Some g)
    then have "effect_routeGeometry props ?refs =
        (\<lambda>m. and_then (and_then (and_then (addRouteLayers ?refs m) (addCongestionLayers ?refs))
            (addSampleLayers ?refs)) (addTrafficLightLayers ?refs))"
      by (intro ext) (simp add: effect_routeGeometry_def)
    moreover have "sets_congestion (congestionSegmentsRef ?refs)
        (\<lambda>m. and_then (and_then (and_then (addRouteLayers ?refs m) (addCongestionLayers ?refs))
            (addSampleLayers ?refs)) (addTrafficLightLayers ?refs))"
      by (intro sets_then_keeps keeps_then_sets keeps_congestion_route sets_congestion_add
          keeps_congestion_samples keeps_congestion_signals)
    ultimately show ?thesis by simp
  qed
  have rest_keeps: "\<And>f. keeps_congestion f \<Longrightarrow>
      sets_congestion (congestionSegmentsRef ?refs)
        (\<lambda>m. and_then (and_then (and_then (and_then (and_then (f m)
          (addSampleLayers ?refs)) (addTollLayers ?refs)) (addAccidentLayers ?refs))
          (effect_congestionSegments ?refs)) (addTrafficLightLayers ?refs))"
    by (intro sets_then_keeps keeps_then_sets keeps_then_keeps sets_congestion_effect
        keeps_congestion_samples keeps_congestion_tolls keeps_congestion_accidents
        keeps_congestion_signals)
  have rest_sets: "\<And>f. sets_congestion (congestionSegmentsRef ?refs) f \<Longrightarrow>
      sets_congestion (congestionSegmentsRef ?refs)
        (\<lambda>m. and_then (and_then (and_then (and_then (and_then (f m)
          (addSampleLayers ?refs)) (addTollLayers ?refs)) (addAccidentLayers ?refs))
          (effect_congestionSegments ?refs)) (addTrafficLightLayers ?refs))"
    by (intro sets_then_keeps sets_then_sets sets_congestion_effect
        keeps_congestion_samples keeps_congestion_tolls keeps_congestion_accidents
        keeps_congestion_signals)
  have "sets_congestion (congestionSegmentsRef ?refs)
        (\<lambda>m. and_then (and_then (and_then (and_then (and_then
          (effect_routeGeometry props ?refs m)
          (addSampleLayers ?refs)) (addTollLayers ?refs)) (addAccidentLayers ?refs))
          (effect_congestionSegments ?refs)) (addTrafficLightLayers ?refs))"
    using first rest_keeps rest_sets by blast
  then show ?thesis
    unfolding segs by (simp add: on_result_changed_def [abs_def] Let_def)
qed

lemma seg_sources_ids:
  "map fst (seg_sources idx segs) = map sourceId [idx..<idx + length segs]"
proof (induction segs arbitrary: idx)
  case Nil
  show ?case by simp
next
  case (Cons seg segs)
  have "[idx..<idx + length (seg # segs)] = idx # [Suc idx..<Suc idx + length segs]"
    by (subst upt_rec) simp
  with Cons.IH [of "Suc idx"] show ?case by simp
qed



subsection \<open>Draw order\<close>

text \<open>
  C6 (as stated). The order fails after a full rebuild when two point channels have
  data: the label layer of the samples lies below the circle layer of the tolls. It
  fails after the rebuild that a change of the congestion segments triggers: the
  route and segment layers are removed and put back on top of the point layers.
\<close>

theorem draw_order_counterexample:
  "\<not> isl (rebuildLayers demo_refs surface_initial)
   \<and> map layer_id (layers (projr (rebuildLayers demo_refs surface_initial)))
       = [''route-outline'', ''congestion-seg-outline-0'', ''congestion-seg-line-0'',
          ''samples-circles-stroke'', ''samples-circles'', ''samples-labels'',
          ''toll-circles'', ''toll-labels'']
   \<and> \<not> draw_order_ok (projr (rebuildLayers demo_refs surface_initial))
   \<and> \<not> isl (effect_congestionSegments demo_refs
              (projr (rebuildLayers demo_refs surface_initial)))
   \<and> map layer_id (layers (projr (effect_congestionSegments demo_refs
              (projr (rebuildLayers demo_refs surface_initial)))))
       = [''samples-circles-stroke'', ''samples-circles'', ''samples-labels'',
          ''toll-circles'', ''toll-labels'',
          ''route-outline'', ''congestion-seg-outline-0'', ''congestion-seg-line-0'']
   \<and> \<not> draw_order_ok (projr (effect_congestionSegments demo_refs
              (projr (rebuildLayers demo_refs surface_initial))))"
  by code_simp


lemma sorted_const: "(\<And>x. x \<in> set xs \<Longrightarrow> x = c) \<Longrightarrow> sorted (xs :: nat list)"
  by (induction xs) auto

lemma map_filter_append: "List.map_filter f (xs @ ys) = List.map_filter f xs @ List.map_filter f ys"
  by (simp add: List.map_filter_def)

lemma map_filter_const:
  assumes "\<And>l. l \<in> set ls \<Longrightarrow> f l = Some c"
  shows "x \<in> set (List.map_filter f ls) \<Longrightarrow> x = c"
  using assms by (auto simp: List.map_filter_def)

lemma coarse_tier_route: "l \<in> set (route_layers refs) \<Longrightarrow> coarse_tier l = Some 0"
  by (drule route_layers_members) (auto simp: coarse_tier_def layer_tier_def)

lemma coarse_tier_seg: "l \<in> set (seg_layers idx segs) \<Longrightarrow> coarse_tier l = Some 1"
proof -
  assume "l \<in> set (seg_layers idx segs)"
  then have c: "is_congestion_id (layer_id l)" by (simp add: seg_layers_congestion)
  then have "layer_id l \<noteq> ''route-outline''" "layer_id l \<noteq> ''route-line''"
    using fixed_ids_not_congestion by metis+
  with c show ?thesis by (simp add: coarse_tier_def layer_tier_def)
qed

lemma coarse_tier_samples: "l \<in> set (sample_layers refs) \<Longrightarrow> coarse_tier l = Some 2"
  by (drule sample_layers_members) (auto simp: coarse_tier_def layer_tier_def)

lemma coarse_tier_tolls: "l \<in> set (toll_layers refs) \<Longrightarrow> coarse_tier l = Some 2"
  by (drule toll_layers_members) (auto simp: coarse_tier_def layer_tier_def)

lemma coarse_tier_accidents: "l \<in> set (accident_layers refs) \<Longrightarrow> coarse_tier l = Some 2"
  by (drule accident_layers_members) (auto simp: coarse_tier_def layer_tier_def)

lemma coarse_tier_signals: "l \<in> set (signal_layers refs) \<Longrightarrow> coarse_tier l = Some 2"
  by (drule signal_layers_members) (auto simp: coarse_tier_def layer_tier_def)

lemma coarse_tier_unmanaged:
  assumes "\<not> managed_layer refs (layer_id l)" and "coarse_tier l = Some x"
  shows "x = 0"
  using assms
  by (auto simp: managed_layer_def coarse_tier_def layer_tier_def split: if_splits)

lemma sorted_drawn_tiers:
  "sorted (List.map_filter coarse_tier (drawn_layers refs))"
    and "x \<in> set (List.map_filter coarse_tier (drawn_layers refs)) \<Longrightarrow> 0 \<le> x"
proof -
  let ?t = "List.map_filter coarse_tier"
  let ?segs = "congestionSegmentsRef refs"
  have r: "\<And>x. x \<in> set (?t (route_layers refs)) \<Longrightarrow> x = 0"
    by (rule map_filter_const [of _ coarse_tier]) (rule coarse_tier_route)
  have c: "\<And>x. x \<in> set (?t (seg_layers 0 ?segs)) \<Longrightarrow> x = 1"
    by (rule map_filter_const [of _ coarse_tier]) (rule coarse_tier_seg)
  have p: "\<And>x. x \<in> set (?t (sample_layers refs @ toll_layers refs @ accident_layers refs
                               @ signal_layers refs)) \<Longrightarrow> x = 2"
    by (rule map_filter_const [of _ coarse_tier])
       (auto simp: coarse_tier_samples coarse_tier_tolls coarse_tier_accidents
          coarse_tier_signals)
  have "sorted (?t (route_layers refs) @ ?t (seg_layers 0 ?segs)
          @ ?t (sample_layers refs @ toll_layers refs @ accident_layers refs
                @ signal_layers refs))"
    using sorted_const [OF r] sorted_const [OF c] sorted_const [OF p] r c p
    by (fastforce simp: sorted_append)
  then show "sorted (?t (drawn_layers refs))"
    by (simp add: drawn_layers_def map_filter_append)
  show "x \<in> set (?t (drawn_layers refs)) \<Longrightarrow> 0 \<le> x" by simp
qed

lemma draw_order_coarse_rebuilt:
  "draw_order_coarse (rebuilt (managed_layer refs) ds (drawn_layers refs) ns s)"
proof -
  let ?t = "List.map_filter coarse_tier"
  let ?A = "filter (\<lambda>l. \<not> managed_layer refs (layer_id l)) (layers s)"
  have zero: "\<And>x. x \<in> set (?t ?A) \<Longrightarrow> x = 0"
    by (auto simp: List.map_filter_def dest: coarse_tier_unmanaged)
  have "sorted (?t ?A @ ?t (drawn_layers refs))"
    using sorted_const [OF zero] zero sorted_drawn_tiers(1) [of refs]
    by (fastforce simp: sorted_append)
  then show ?thesis
    by (simp add: draw_order_coarse_def rebuilt_def map_filter_append)
qed


lemma seg_layers_source:
  "l \<in> set (seg_layers idx segs) \<Longrightarrow> is_congestion_id (layer_source l)"
  using seg_layers_members by fastforce

lemma filter_none: "(\<And>x. x \<in> set xs \<Longrightarrow> \<not> P x) \<Longrightarrow> filter P xs = []"
  by (simp add: filter_empty_conv)

lemma filter_all: "(\<And>x. x \<in> set xs \<Longrightarrow> P x) \<Longrightarrow> filter P xs = xs"
  by (simp add: filter_id_conv)

lemma source_layers_drawn:
  "filter (\<lambda>l. layer_source l = ''samples'') (drawn_layers refs) = sample_layers refs"
  "filter (\<lambda>l. layer_source l = ''tolls'') (drawn_layers refs) = toll_layers refs"
  "filter (\<lambda>l. layer_source l = ''accidents'') (drawn_layers refs) = accident_layers refs"
  "filter (\<lambda>l. layer_source l = ''signals'') (drawn_layers refs) = signal_layers refs"
proof -
  have not_seg: "\<And>l src. l \<in> set (seg_layers 0 (congestionSegmentsRef refs))
      \<Longrightarrow> \<not> is_congestion_id src \<Longrightarrow> layer_source l \<noteq> src"
    using seg_layers_source by blast
  have r: "\<And>src. src \<noteq> ''route'' \<Longrightarrow> filter (\<lambda>l. layer_source l = src) (route_layers refs) = []"
    by (rule filter_none) (auto dest: route_layers_members)
  have c: "\<And>src. \<not> is_congestion_id src \<Longrightarrow>
      filter (\<lambda>l. layer_source l = src) (seg_layers 0 (congestionSegmentsRef refs)) = []"
    by (rule filter_none) (auto dest: not_seg)
  have s: "\<And>src. filter (\<lambda>l. layer_source l = src) (sample_layers refs)
      = (if src = ''samples'' then sample_layers refs else [])"
    by (auto intro!: filter_none filter_all dest: sample_layers_members)
  have t: "\<And>src. filter (\<lambda>l. layer_source l = src) (toll_layers refs)
      = (if src = ''tolls'' then toll_layers refs else [])"
    by (auto intro!: filter_none filter_all dest: toll_layers_members)
  have a: "\<And>src. filter (\<lambda>l. layer_source l = src) (accident_layers refs)
      = (if src = ''accidents'' then accident_layers refs else [])"
    by (auto intro!: filter_none filter_all dest: accident_layers_members)
  have g: "\<And>src. filter (\<lambda>l. layer_source l = src) (signal_layers refs)
      = (if src = ''signals'' then signal_layers refs else [])"
    by (auto intro!: filter_none filter_all dest: signal_layers_members)
  show "filter (\<lambda>l. layer_source l = ''samples'') (drawn_layers refs) = sample_layers refs"
    by (simp add: drawn_layers_def r c s t a g)
  show "filter (\<lambda>l. layer_source l = ''tolls'') (drawn_layers refs) = toll_layers refs"
    by (simp add: drawn_layers_def r c s t a g)
  show "filter (\<lambda>l. layer_source l = ''accidents'') (drawn_layers refs) = accident_layers refs"
    by (simp add: drawn_layers_def r c s t a g)
  show "filter (\<lambda>l. layer_source l = ''signals'') (drawn_layers refs) = signal_layers refs"
    by (simp add: drawn_layers_def r c s t a g)
qed

lemma source_layers_kept:
  assumes "surface_ok s" and "src \<in> set [''samples'', ''tolls'', ''accidents'', ''signals'']"
  shows "filter (\<lambda>l. \<not> managed_layer refs (layer_id l) \<and> layer_source l = src) (layers s)
           = []"
proof (rule filter_none)
  fix l assume l: "l \<in> set (layers s)"
  from surface_okD(3) [OF assms(1) l] have "owner_ok l" .
  with assms(2) show "\<not> (\<not> managed_layer refs (layer_id l) \<and> layer_source l = src)"
    by (auto simp: owner_ok_def managed_layer_def)
qed

lemma sorted_channel_tiers:
  "sorted (List.map_filter layer_tier (sample_layers refs))"
  "sorted (List.map_filter layer_tier (toll_layers refs))"
  "sorted (List.map_filter layer_tier (accident_layers refs))"
  "sorted (List.map_filter layer_tier (signal_layers refs))"
  by (simp_all add: sample_layers_def toll_layers_def accident_layers_def signal_layers_def
      List.map_filter_def layer_tier_def is_congestion_id_def)

lemma labels_above_circles_rebuilt:
  assumes "surface_ok s"
  shows "labels_above_circles ''samples''
           (rebuilt (managed_layer refs) ds (drawn_layers refs) ns s)"
    and "labels_above_circles ''tolls''
           (rebuilt (managed_layer refs) ds (drawn_layers refs) ns s)"
    and "labels_above_circles ''accidents''
           (rebuilt (managed_layer refs) ds (drawn_layers refs) ns s)"
    and "labels_above_circles ''signals''
           (rebuilt (managed_layer refs) ds (drawn_layers refs) ns s)"
  by (simp_all add: labels_above_circles_def rebuilt_def source_layers_drawn
      source_layers_kept [OF assms] sorted_channel_tiers)

text \<open>
  C6 (amended). After every full rebuild on a well-formed surface, the route layers
  lie below the congestion segment layers, which lie below the layers of the four
  point channels (their circles and labels taken together); and in each point channel
  the label layer lies above the channel's own circle layers.
\<close>

theorem full_rebuild_draw_order:
  assumes "surface_ok s"
  shows "\<exists>s'. rebuildLayers refs s = Inr s' \<and> draw_order_coarse s'
              \<and> labels_above_circles ''samples'' s' \<and> labels_above_circles ''tolls'' s'
              \<and> labels_above_circles ''accidents'' s' \<and> labels_above_circles ''signals'' s'"
  using rebuildLayers_rebuilt(1) [OF assms, of refs] draw_order_coarse_rebuilt [of refs]
    labels_above_circles_rebuilt [OF assms, of refs]
  by blast

theorem full_rebuild_draw_order_witness:
  "surface_ok surface_initial
   \<and> (\<exists>s'. rebuildLayers demo_refs surface_initial = Inr s'
          \<and> map layer_id (layers s')
              = [''route-outline'', ''congestion-seg-outline-0'', ''congestion-seg-line-0'',
                 ''samples-circles-stroke'', ''samples-circles'', ''samples-labels'',
                 ''toll-circles'', ''toll-labels'']
          \<and> draw_order_coarse s' \<and> labels_above_circles ''samples'' s'
          \<and> labels_above_circles ''tolls'' s')"
proof -
  have ok: "surface_ok surface_initial" by (rule surface_ok_initial)
  have ids: "map layer_id (layers (projr (rebuildLayers demo_refs surface_initial)))
       = [''route-outline'', ''congestion-seg-outline-0'', ''congestion-seg-line-0'',
          ''samples-circles-stroke'', ''samples-circles'', ''samples-labels'',
          ''toll-circles'', ''toll-labels'']"
    by code_simp
  from full_rebuild_draw_order [OF ok, of demo_refs] obtain s' where
    "rebuildLayers demo_refs surface_initial = Inr s'" "draw_order_coarse s'"
    "labels_above_circles ''samples'' s'" "labels_above_circles ''tolls'' s'"
    by blast
  with ids ok show ?thesis by auto
qed

subsection \<open>Channels without data\<close>

text \<open>
  C8 (as stated). The route channel is not removed when its data is absent. After a
  result has been drawn, a change to props without any data (the root component
  clears its result when a new analysis starts) leaves the route on the surface: the
  geometry reference keeps its last value, and the effect of the congestion segments
  draws the route again from it.
\<close>

theorem route_not_removed_counterexample:
  "routeGeometry no_props = None
   \<and> \<not> isl (on_result_changed (demo_props [demo_segment ''free'']) refs_initial
              surface_initial)
   \<and> \<not> isl (on_result_changed no_props demo_refs
              (projr (on_result_changed (demo_props [demo_segment ''free'']) refs_initial
                        surface_initial)))
   \<and> layers (projr (on_result_changed no_props demo_refs
              (projr (on_result_changed (demo_props [demo_segment ''free'']) refs_initial
                        surface_initial))))
       = [\<lparr>layer_id = ''route-outline'', layer_type = Line, layer_source = ''route''\<rparr>,
          \<lparr>layer_id = ''route-line'', layer_type = Line, layer_source = ''route''\<rparr>]
   \<and> map fst (sources (projr (on_result_changed no_props demo_refs
              (projr (on_result_changed (demo_props [demo_segment ''free'']) refs_initial
                        surface_initial)))))
       = [''route'']"
  by code_simp

lemma channel_absent_rebuilt:
  assumes "surface_ok s"
    and "\<And>l. owner_ok l \<Longrightarrow> layer_source l = src \<Longrightarrow> layer_id l \<in> set ids"
  shows "channel_absent ids src (rebuilt (\<lambda>i. i \<in> set ids) (\<lambda>i. i = src) [] [] s)"
proof -
  have "filter (\<lambda>l. layer_id l \<in> set ids \<or> layer_source l = src)
          (filter (\<lambda>l. \<not> layer_id l \<in> set ids) (layers s)) = []"
  proof (rule filter_none)
    fix l assume "l \<in> set (filter (\<lambda>l. \<not> layer_id l \<in> set ids) (layers s))"
    then have l: "l \<in> set (layers s)" and un: "layer_id l \<notin> set ids" by auto
    from surface_okD(3) [OF assms(1) l] assms(2) un
    show "\<not> (layer_id l \<in> set ids \<or> layer_source l = src)" by blast
  qed
  moreover have "src \<notin> set (map fst (filter (\<lambda>p. \<not> fst p = src) (sources s)))"
    by auto
  ultimately show ?thesis
    by (simp add: channel_absent_def rebuilt_def del: filter_filter)
qed

lemma congestion_absent_rebuilt:
  assumes "surface_ok s"
  shows "filter (\<lambda>l. is_congestion_id (layer_source l))
           (layers (rebuilt is_congestion_id is_congestion_id [] [] s)) = []"
proof -
  have "filter (\<lambda>l. is_congestion_id (layer_source l))
          (filter (\<lambda>l. \<not> is_congestion_id (layer_id l)) (layers s)) = []"
  proof (rule filter_none)
    fix l assume "l \<in> set (filter (\<lambda>l. \<not> is_congestion_id (layer_id l)) (layers s))"
    then have l: "l \<in> set (layers s)" and un: "\<not> is_congestion_id (layer_id l)" by auto
    from surface_okD(3) [OF assms(1) l] un
    show "\<not> is_congestion_id (layer_source l)" by (simp add: owner_ok_def)
  qed
  then show ?thesis
    by (simp add: rebuilt_def del: filter_filter)
qed

text \<open>
  C8 (amended). For the channels of the samples, tolls, accidents, signals and
  congestion segments, the channel's rebuild with empty or absent data, on a
  well-formed surface, succeeds without firing an error event and leaves no layer
  and no source of the channel. The route channel is different: its rebuild with no
  known geometry leaves the surface as it is.
\<close>

theorem empty_channel_is_removed:
  assumes "surface_ok s"
  shows "(or_empty (samplesRef refs) = [] \<longrightarrow>
            (\<exists>s'. addSampleLayers refs s = Inr s' \<and> error_events s' = error_events s
               \<and> channel_absent [''samples-labels'', ''samples-circles'',
                                  ''samples-circles-stroke''] ''samples'' s'))
       \<and> (tollPointsRef refs = [] \<longrightarrow>
            (\<exists>s'. addTollLayers refs s = Inr s' \<and> error_events s' = error_events s
               \<and> channel_absent [''toll-labels'', ''toll-circles''] ''tolls'' s'))
       \<and> (accidentPointsRef refs = [] \<longrightarrow>
            (\<exists>s'. addAccidentLayers refs s = Inr s' \<and> error_events s' = error_events s
               \<and> channel_absent [''accident-labels'', ''accident-circles''] ''accidents'' s'))
       \<and> (trafficLightPointsRef refs = [] \<longrightarrow>
            (\<exists>s'. addTrafficLightLayers refs s = Inr s' \<and> error_events s' = error_events s
               \<and> channel_absent [''signal-labels'', ''signal-circles''] ''signals'' s'))
       \<and> (congestionSegmentsRef refs = [] \<longrightarrow>
            (\<exists>s'. addCongestionLayers refs s = Inr s' \<and> error_events s' = error_events s
               \<and> congestion_layers s' = [] \<and> congestion_sources s' = []
               \<and> filter (\<lambda>l. is_congestion_id (layer_source l)) (layers s') = []))
       \<and> (routeGeomRef refs = None \<longrightarrow> addRouteLayers refs s = Inr s)"
proof (intro conjI impI)
  assume e: "or_empty (samplesRef refs) = []"
  have "channel_absent [''samples-labels'', ''samples-circles'', ''samples-circles-stroke'']
          ''samples''
          (rebuilt (\<lambda>i. i \<in> set [''samples-labels'', ''samples-circles'',
                                  ''samples-circles-stroke''])
             (\<lambda>i. i = ''samples'') [] [] s)"
    using assms by (rule channel_absent_rebuilt) (simp add: owner_ok_def)
  with addSampleLayers_rebuilt [OF assms, of refs] e
  show "\<exists>s'. addSampleLayers refs s = Inr s' \<and> error_events s' = error_events s
               \<and> channel_absent [''samples-labels'', ''samples-circles'',
                                  ''samples-circles-stroke''] ''samples'' s'"
    by (simp add: sample_layers_def sample_source_def)
next
  assume e: "tollPointsRef refs = []"
  have "channel_absent [''toll-labels'', ''toll-circles''] ''tolls''
          (rebuilt (\<lambda>i. i \<in> set [''toll-labels'', ''toll-circles''])
             (\<lambda>i. i = ''tolls'') [] [] s)"
    using assms by (rule channel_absent_rebuilt) (simp add: owner_ok_def)
  with addTollLayers_rebuilt [OF assms, of refs] e
  show "\<exists>s'. addTollLayers refs s = Inr s' \<and> error_events s' = error_events s
               \<and> channel_absent [''toll-labels'', ''toll-circles''] ''tolls'' s'"
    by (simp add: toll_layers_def toll_source_def)
next
  assume e: "accidentPointsRef refs = []"
  have "channel_absent [''accident-labels'', ''accident-circles''] ''accidents''
          (rebuilt (\<lambda>i. i \<in> set [''accident-labels'', ''accident-circles''])
             (\<lambda>i. i = ''accidents'') [] [] s)"
    using assms by (rule channel_absent_rebuilt) (simp add: owner_ok_def)
  with addAccidentLayers_rebuilt [OF assms, of refs] e
  show "\<exists>s'. addAccidentLayers refs s = Inr s' \<and> error_events s' = error_events s
               \<and> channel_absent [''accident-labels'', ''accident-circles''] ''accidents'' s'"
    by (simp add: accident_layers_def accident_source_def)
next
  assume e: "trafficLightPointsRef refs = []"
  have "channel_absent [''signal-labels'', ''signal-circles''] ''signals''
          (rebuilt (\<lambda>i. i \<in> set [''signal-labels'', ''signal-circles''])
             (\<lambda>i. i = ''signals'') [] [] s)"
    using assms by (rule channel_absent_rebuilt) (simp add: owner_ok_def)
  with addTrafficLightLayers_rebuilt [OF assms, of refs] e
  show "\<exists>s'. addTrafficLightLayers refs s = Inr s' \<and> error_events s' = error_events s
               \<and> channel_absent [''signal-labels'', ''signal-circles''] ''signals'' s'"
    by (simp add: signal_layers_def signal_source_def)
next
  assume e: "congestionSegmentsRef refs = []"
  with addCongestionLayers_rebuilt [OF assms, of refs] congestion_view_self [of "[]" s]
    congestion_absent_rebuilt [OF assms]
  show "\<exists>s'. addCongestionLayers refs s = Inr s' \<and> error_events s' = error_events s
               \<and> congestion_layers s' = [] \<and> congestion_sources s' = []
               \<and> filter (\<lambda>l. is_congestion_id (layer_source l)) (layers s') = []"
    by simp
next
  assume "routeGeomRef refs = None"
  then show "addRouteLayers refs s = Inr s" by (simp add: addRouteLayers_def)
qed


theorem empty_channel_is_removed_witness:
  "surface_ok (projr (rebuildLayers demo_refs surface_initial))
   \<and> getLayer ''toll-circles'' (projr (rebuildLayers demo_refs surface_initial))
   \<and> getSource ''samples'' (projr (rebuildLayers demo_refs surface_initial))
   \<and> or_empty (samplesRef refs_initial) = [] \<and> tollPointsRef refs_initial = []
   \<and> accidentPointsRef refs_initial = [] \<and> trafficLightPointsRef refs_initial = []
   \<and> congestionSegmentsRef refs_initial = [] \<and> routeGeomRef refs_initial = None
   \<and> (\<exists>s'. addSampleLayers refs_initial (projr (rebuildLayers demo_refs surface_initial))
               = Inr s'
          \<and> channel_absent [''samples-labels'', ''samples-circles'',
                             ''samples-circles-stroke''] ''samples'' s')
   \<and> (\<exists>s'. addTollLayers refs_initial (projr (rebuildLayers demo_refs surface_initial))
               = Inr s'
          \<and> channel_absent [''toll-labels'', ''toll-circles''] ''tolls'' s')
   \<and> (\<exists>s'. addAccidentLayers refs_initial (projr (rebuildLayers demo_refs surface_initial))
               = Inr s')
   \<and> (\<exists>s'. addTrafficLightLayers refs_initial
               (projr (rebuildLayers demo_refs surface_initial)) = Inr s')
   \<and> (\<exists>s'. addCongestionLayers refs_initial
               (projr (rebuildLayers demo_refs surface_initial)) = Inr s'
          \<and> congestion_layers s' = [] \<and> congestion_sources s' = [])
   \<and> addRouteLayers refs_initial (projr (rebuildLayers demo_refs surface_initial))
       = Inr (projr (rebuildLayers demo_refs surface_initial))"
proof -
  let ?S = "projr (rebuildLayers demo_refs surface_initial)"
  have ok: "surface_ok ?S" by code_simp
  have present: "getLayer ''toll-circles'' ?S" "getSource ''samples'' ?S" by code_simp+
  have empty: "or_empty (samplesRef refs_initial) = []" "tollPointsRef refs_initial = []"
    "accidentPointsRef refs_initial = []" "trafficLightPointsRef refs_initial = []"
    "congestionSegmentsRef refs_initial = []" "routeGeomRef refs_initial = None"
    by (simp_all add: refs_initial_def or_empty_def)
  from empty_channel_is_removed [OF ok, of refs_initial] empty
  have "(\<exists>s'. addSampleLayers refs_initial ?S = Inr s'
          \<and> channel_absent [''samples-labels'', ''samples-circles'',
                             ''samples-circles-stroke''] ''samples'' s')
   \<and> (\<exists>s'. addTollLayers refs_initial ?S = Inr s'
          \<and> channel_absent [''toll-labels'', ''toll-circles''] ''tolls'' s')
   \<and> (\<exists>s'. addAccidentLayers refs_initial ?S = Inr s')
   \<and> (\<exists>s'. addTrafficLightLayers refs_initial ?S = Inr s')
   \<and> (\<exists>s'. addCongestionLayers refs_initial ?S = Inr s'
          \<and> congestion_layers s' = [] \<and> congestion_sources s' = [])
   \<and> addRouteLayers refs_initial ?S = Inr ?S"
    by blast
  with ok present empty show ?thesis by blast
qed

end
